theory Spec2Isabelle
  imports Complex_Main "HOL-Library.AList" "HOL-Library.Char_ord" "HOL-Library.List_Lexorder"
begin

section \<open>Python values and exceptions\<close>

text \<open>
  The exceptions that the modelled part of \<^verbatim>\<open>vprof/memory_profile.py\<close> can raise or
  let through. \<open>TargetError\<close> stands for any exception of the profiled program that is
  not \<open>SystemExit\<close>.
\<close>

datatype exn =
    SystemExit
  | TypeError
  | IndexError
  | IOError
  | SyntaxError
  | ImportError
  | AttributeError
  | TargetError string

text \<open>
  A row of \<^verbatim>\<open>_resulting_events\<close> is a Python list holding integers, a float and
  strings, and the source reads and writes it by position; the values are therefore
  dynamically typed. The float \<^verbatim>\<open>float(mem - overhead) / _BYTES_IN_MB\<close> is modelled by
  the rational number it denotes: the conversion of an integer below \<open>2 ^ 53\<close> and the
  division by \<open>2 ^ 20\<close> are both exact in binary floating point.
\<close>

datatype pyval = PyInt int | PyFloat rat | PyStr string

text \<open>Python's \<^verbatim>\<open>==\<close>: numbers compare by value, a number never equals a string.\<close>

fun py_eq :: "pyval \<Rightarrow> pyval \<Rightarrow> bool" where
  "py_eq (PyInt a) (PyInt b) = (a = b)"
| "py_eq (PyInt a) (PyFloat b) = (of_int a = b)"
| "py_eq (PyFloat a) (PyInt b) = (a = of_int b)"
| "py_eq (PyFloat a) (PyFloat b) = (a = b)"
| "py_eq (PyStr a) (PyStr b) = (a = b)"
| "py_eq _ _ = False"

text \<open>Python 3's \<^verbatim>\<open><\<close>: ordering a number against a string raises \<open>TypeError\<close>.\<close>

fun py_lt :: "pyval \<Rightarrow> pyval \<Rightarrow> exn + bool" where
  "py_lt (PyInt a) (PyInt b) = Inr (a < b)"
| "py_lt (PyInt a) (PyFloat b) = Inr (of_int a < b)"
| "py_lt (PyFloat a) (PyInt b) = Inr (a < of_int b)"
| "py_lt (PyFloat a) (PyFloat b) = Inr (a < b)"
| "py_lt (PyStr a) (PyStr b) = Inr (a < b)"
| "py_lt _ _ = Inl TypeError"

text \<open>
  The position that a Python index denotes in a sequence of a given length: an index
  below zero is taken from the end, and one outside the sequence denotes nothing.
\<close>

definition py_index :: "nat \<Rightarrow> int \<Rightarrow> nat option" where
  "py_index len i =
     (if 0 \<le> i \<and> i < int len then Some (nat i)
      else if i < 0 \<and> - int len \<le> i then Some (nat (int len + i))
      else None)"

text \<open>\<^verbatim>\<open>xs[i]\<close> and \<^verbatim>\<open>xs[i] = v\<close>, which raise \<open>IndexError\<close> outside the list.\<close>

definition py_getitem :: "'a list \<Rightarrow> int \<Rightarrow> exn + 'a" where
  "py_getitem xs i =
     (case py_index (length xs) i of None \<Rightarrow> Inl IndexError | Some k \<Rightarrow> Inr (xs ! k))"

definition py_setitem :: "'a list \<Rightarrow> int \<Rightarrow> 'a \<Rightarrow> exn + 'a list" where
  "py_setitem xs i v =
     (case py_index (length xs) i of None \<Rightarrow> Inl IndexError | Some k \<Rightarrow> Inr (xs[k := v]))"

section \<open>The events tracker\<close>

definition BYTES_IN_MB :: int where
  "BYTES_IN_MB = 1024 * 1024"

text \<open>
  A code object, with the fields the tracker reads. \<^verbatim>\<open>co_consts\<close> holds nested code
  objects among other constants.
\<close>

datatype code = Code (co_name: string) (co_filename: string) (co_consts: "pyconst list")
  and pyconst = ConstCode code | ConstOther

text \<open>
  The value of \<^verbatim>\<open>sys.gettrace()\<close>: \<open>None\<close> when no trace function is set, the bound
  method \<^verbatim>\<open>_trace_memory_usage\<close> of the tracker with a given identity, or a trace
  function of somebody else (a debugger, a coverage tool).
\<close>

datatype trace_fn = TrackerTrace nat | ForeignTrace nat

text \<open>A raw event: \<^verbatim>\<open>(f_lineno, curr_memory, co_name, co_filename)\<close>.\<close>

type_synonym raw_event = "int \<times> int \<times> string \<times> string"

record tracker =
  self_id :: nat
  all_code :: "code set"
  events_list :: "raw_event list"
  original_trace_function :: "trace_fn option"
  pid :: nat
  resulting_events :: "pyval list list"
  mem_overhead :: "int option"

subsection \<open>\<^verbatim>\<open>code_events\<close>\<close>

text \<open>
  The condition of the \<^verbatim>\<open>if\<close> in the loop of \<^verbatim>\<open>code_events\<close>, with Python's
  short-circuit \<^verbatim>\<open>and\<close>: positions 0, 2, 3 and 1 of the last row are read, in this
  order, exactly as the source does.
\<close>

definition last_event_matches ::
  "pyval list list \<Rightarrow> int \<Rightarrow> pyval \<Rightarrow> string \<Rightarrow> string \<Rightarrow> exn + bool" where
  "last_event_matches res lineno mem_in_mb func fname =
     (if res = [] then Inr False
      else case py_getitem res (-1) of Inl e \<Rightarrow> Inl e | Inr row \<Rightarrow>
        (case py_getitem row 0 of Inl e \<Rightarrow> Inl e | Inr v0 \<Rightarrow>
           if \<not> py_eq v0 (PyInt lineno) then Inr False
           else case py_getitem row 2 of Inl e \<Rightarrow> Inl e | Inr v2 \<Rightarrow>
             if \<not> py_eq v2 (PyStr func) then Inr False
             else case py_getitem row 3 of Inl e \<Rightarrow> Inl e | Inr v3 \<Rightarrow>
               if \<not> py_eq v3 (PyStr fname) then Inr False
               else case py_getitem row 1 of Inl e \<Rightarrow> Inl e | Inr v1 \<Rightarrow>
                 py_lt v1 mem_in_mb))"

text \<open>\<^verbatim>\<open>self._resulting_events[-1][1] = mem_in_mb\<close>\<close>

definition update_last_event :: "pyval list list \<Rightarrow> pyval \<Rightarrow> exn + pyval list list" where
  "update_last_event res mem_in_mb =
     (case py_getitem res (-1) of Inl e \<Rightarrow> Inl e | Inr row \<Rightarrow>
        (case py_setitem row 1 mem_in_mb of Inl e \<Rightarrow> Inl e | Inr row' \<Rightarrow>
           py_setitem res (-1) row'))"

text \<open>
  The loop over \<^verbatim>\<open>enumerate(self._events_list)\<close>. It returns the exception that
  stopped it, if any, and the list \<^verbatim>\<open>_resulting_events\<close> as the loop left it.
\<close>

fun code_events_loop ::
  "int option \<Rightarrow> nat \<Rightarrow> raw_event list \<Rightarrow> pyval list list \<Rightarrow> exn option \<times> pyval list list" where
  "code_events_loop ov i [] res = (None, res)"
| "code_events_loop ov i ((lineno, mem, func, fname) # evs) res =
     (case ov of
        None \<Rightarrow> (Some TypeError, res)
      | Some overhead \<Rightarrow>
          (let mem_in_mb = PyFloat (of_int (mem - overhead) / of_int BYTES_IN_MB) in
           case last_event_matches res lineno mem_in_mb func fname of
             Inl e \<Rightarrow> (Some e, res)
           | Inr True \<Rightarrow>
               (case update_last_event res mem_in_mb of
                  Inl e \<Rightarrow> (Some e, res)
                | Inr res' \<Rightarrow> code_events_loop ov (i + 1) evs res')
           | Inr False \<Rightarrow>
               code_events_loop ov (i + 1) evs
                 (res @ [[PyInt (int i + 1), PyInt lineno, mem_in_mb, PyStr func, PyStr fname]])))"

text \<open>
  The property \<^verbatim>\<open>code_events\<close>: the value returned (or the exception raised) and the
  tracker afterwards. A non-empty \<^verbatim>\<open>_resulting_events\<close> is returned as it is.
\<close>

definition code_events :: "tracker \<Rightarrow> (exn + pyval list list) \<times> tracker" where
  "code_events t =
     (if resulting_events t \<noteq> [] then (Inr (resulting_events t), t)
      else case code_events_loop (mem_overhead t) 0 (events_list t) (resulting_events t) of
             (Some e, res) \<Rightarrow> (Inl e, t\<lparr>resulting_events := res\<rparr>)
           | (None, res) \<Rightarrow> (Inr res, t\<lparr>resulting_events := res\<rparr>))"

section \<open>The object census\<close>

text \<open>
  A type object is identified by its identity and carries the text \<^verbatim>\<open>repr\<close> gives for
  it. An object in memory has an identity (\<^verbatim>\<open>id(obj)\<close>) and a type
  (\<^verbatim>\<open>type(obj)\<close>).
\<close>

datatype pytype = PyType (type_id: nat) (type_repr: string)

record pyobj =
  id_of :: nat
  type_of :: pytype

definition frame_type :: pytype where
  "frame_type = PyType 0 (''<class '' @ [CHR 0x27] @ ''frame'' @ [CHR 0x27] @ ''>'')"

definition list_type :: pytype where
  "list_type = PyType 1 (''<class '' @ [CHR 0x27] @ ''list'' @ [CHR 0x27] @ ''>'')"

definition dict_type :: pytype where
  "dict_type = PyType 2 (''<class '' @ [CHR 0x27] @ ''dict'' @ [CHR 0x27] @ ''>'')"

definition set_type :: pytype where
  "set_type = PyType 3 (''<class '' @ [CHR 0x27] @ ''set'' @ [CHR 0x27] @ ''>'')"

definition deque_type :: pytype where
  "deque_type = PyType 4 (''<class '' @ [CHR 0x27] @ ''collections.deque'' @ [CHR 0x27] @ ''>'')"

definition tracker_type :: pytype where
  "tracker_type =
     PyType 5 (''<class '' @ [CHR 0x27] @ ''vprof.memory_profile._CodeEventsTracker''
               @ [CHR 0x27] @ ''>'')"

text \<open>\<^verbatim>\<open>inspect.isframe\<close>\<close>

definition isframe :: "pyobj \<Rightarrow> bool" where
  "isframe obj = (type_of obj = frame_type)"

text \<open>\<^verbatim>\<open>_remove_duplicates\<close>: the loop with its \<^verbatim>\<open>seen\<close> set and \<^verbatim>\<open>uniq\<close> list.\<close>

fun remove_duplicates_loop :: "nat set \<Rightarrow> pyobj list \<Rightarrow> pyobj list \<Rightarrow> pyobj list" where
  "remove_duplicates_loop seen uniq [] = uniq"
| "remove_duplicates_loop seen uniq (obj # objects) =
     (if id_of obj \<in> seen then remove_duplicates_loop seen uniq objects
      else remove_duplicates_loop (insert (id_of obj) seen) (uniq @ [obj]) objects)"

definition remove_duplicates :: "pyobj list \<Rightarrow> pyobj list" where
  "remove_duplicates objects = remove_duplicates_loop {} [] objects"

definition process_in_memory_objects :: "pyobj list \<Rightarrow> pyobj list" where
  "process_in_memory_objects objects =
     remove_duplicates (filter (\<lambda>obj. \<not> isframe obj) objects)"

text \<open>
  \<^verbatim>\<open>collections.Counter\<close>, a dictionary from types to integers, as an association
  list in insertion order with one entry for each key. Reading a missing key gives 0.
  Writing a key keeps its place, or adds it at the end (\<^const>\<open>AList.update\<close>).
\<close>

type_synonym counter = "(pytype \<times> int) list"

definition counter_get :: "counter \<Rightarrow> pytype \<Rightarrow> int" where
  "counter_get c k = (case map_of c k of None \<Rightarrow> 0 | Some n \<Rightarrow> n)"

text \<open>\<^verbatim>\<open>Counter(iterable)\<close>: \<^verbatim>\<open>self[elem] = self.get(elem, 0) + 1\<close> for each element.\<close>

definition counter_of :: "pytype list \<Rightarrow> counter" where
  "counter_of elems = fold (\<lambda>elem c. AList.update elem (counter_get c elem + 1) c) elems []"

text \<open>
  \<^verbatim>\<open>Counter.__sub__\<close> of the standard library: the first loop keeps an element of
  \<^verbatim>\<open>self\<close> when its new count is positive, the second adds the elements that only
  \<^verbatim>\<open>other\<close> has, with a negative count there.
\<close>

definition counter_sub :: "counter \<Rightarrow> counter \<Rightarrow> counter" where
  "counter_sub self other =
     (let result =
            fold (\<lambda>(elem, count) result.
                    let newcount = count - counter_get other elem
                    in if newcount > 0 then AList.update elem newcount result else result)
                 self []
      in fold (\<lambda>(elem, count) result.
                 if map_of self elem = None \<and> count < 0
                 then AList.update elem (0 - count) result else result)
              other result)"

definition get_object_count_by_type :: "pyobj list \<Rightarrow> counter" where
  "get_object_count_by_type objects = counter_of (map type_of objects)"

definition get_obj_count_difference :: "pyobj list \<Rightarrow> pyobj list \<Rightarrow> counter" where
  "get_obj_count_difference objs1 objs2 =
     (let clean_obj_list1 = process_in_memory_objects objs1;
          clean_obj_list2 = process_in_memory_objects objs2;
          obj_count_1 = get_object_count_by_type clean_obj_list1;
          obj_count_2 = get_object_count_by_type clean_obj_list2
      in counter_sub obj_count_1 obj_count_2)"

subsection \<open>The regular expression of \<^verbatim>\<open>_format_obj_count\<close>\<close>

text \<open>
  \<^verbatim>\<open><(?P<type>\w+) '(?P<name>\S+)'>\<close> on byte strings: \<^verbatim>\<open>\w\<close> is a letter, a digit
  or the underscore, \<^verbatim>\<open>\s\<close> is one of the six ASCII white-space characters. On the
  text strings of Python 3 both classes are wider (letters and white space outside
  ASCII); a \<^verbatim>\<open>repr\<close> with such characters is outside this model.
\<close>

definition is_word_char :: "char \<Rightarrow> bool" where
  "is_word_char c \<longleftrightarrow>
     c \<in> set ''abcdefghijklmnopqrstuvwxyzABCDEFGHIJKLMNOPQRSTUVWXYZ0123456789_''"

definition is_space_char :: "char \<Rightarrow> bool" where
  "is_space_char c \<longleftrightarrow>
     c \<in> {CHR '' '', CHR 0x09, CHR 0x0A, CHR 0x0B, CHR 0x0C, CHR 0x0D}"

text \<open>
  \<^verbatim>\<open>(?P<name>\S+)'>\<close>: the greedy \<^verbatim>\<open>\S+\<close> takes the longest run of characters that
  are not white space and is followed by \<^verbatim>\<open>'>\<close>; the result is the name and what is
  left of the text after the closing \<^verbatim>\<open>'>\<close>.
\<close>

fun match_name :: "string \<Rightarrow> (string \<times> string) option" where
  "match_name [] = None"
| "match_name (c # cs) =
     (if is_space_char c then None
      else case match_name cs of
             Some (name, rest) \<Rightarrow> Some (c # name, rest)
           | None \<Rightarrow>
               if take 2 cs = [CHR 0x27, CHR ''>''] then Some ([c], drop 2 cs) else None)"

text \<open>
  A match of the whole pattern at the start of the text: the two groups and the number
  of characters matched. The greedy \<^verbatim>\<open>\w+\<close> has to take every word character, since
  the next character must be a space.
\<close>

definition match_at :: "string \<Rightarrow> ((string \<times> string) \<times> nat) option" where
  "match_at s =
     (case s of
        [] \<Rightarrow> None
      | c # s1 \<Rightarrow>
          if c \<noteq> CHR ''<'' then None
          else let w = takeWhile is_word_char s1; s2 = dropWhile is_word_char s1
               in if w = [] then None
                  else case s2 of
                         sp # q # s3 \<Rightarrow>
                           if sp = CHR '' '' \<and> q = CHR 0x27
                           then case match_name s3 of
                                  Some (name, rest) \<Rightarrow> Some ((w, name), length s - length rest)
                                | None \<Rightarrow> None
                           else None
                       | _ \<Rightarrow> None)"

text \<open>
  \<^verbatim>\<open>re.findall\<close>: the matches from left to right, none overlapping another. The first
  argument counts the characters still covered by the last match.
\<close>

fun findall_from :: "nat \<Rightarrow> string \<Rightarrow> (string \<times> string) list" where
  "findall_from skip [] = []"
| "findall_from skip (c # cs) =
     (if skip > 0 then findall_from (skip - 1) cs
      else case match_at (c # cs) of
             Some (groups, n) \<Rightarrow> groups # findall_from (n - 1) cs
           | None \<Rightarrow> findall_from 0 cs)"

definition re_findall :: "string \<Rightarrow> (string \<times> string) list" where
  "re_findall s = findall_from 0 s"

subsection \<open>\<^verbatim>\<open>_format_obj_count\<close>\<close>

fun format_obj_count_loop ::
  "counter \<Rightarrow> (string \<times> int) list \<Rightarrow> exn + (string \<times> int) list" where
  "format_obj_count_loop [] result = Inr result"
| "format_obj_count_loop ((obj_type, obj_count) # items) result =
     (if obj_count \<noteq> 0
      then case py_getitem (re_findall (type_repr obj_type)) 0 of
             Inl e \<Rightarrow> Inl e
           | Inr (_, name) \<Rightarrow> format_obj_count_loop items (result @ [(name, obj_count)])
      else format_obj_count_loop items result)"

text \<open>
  \<^verbatim>\<open>sorted(result, key=operator.itemgetter(1), reverse=True)\<close>: Python's sort is
  stable, also with \<^verbatim>\<open>reverse=True\<close>.
\<close>

definition sorted_by_count_reverse :: "(string \<times> int) list \<Rightarrow> (string \<times> int) list" where
  "sorted_by_count_reverse result = sort_key (\<lambda>item. - snd item) result"

definition format_obj_count :: "counter \<Rightarrow> exn + (string \<times> int) list" where
  "format_obj_count obj_count =
     (case format_obj_count_loop obj_count [] of
        Inl e \<Rightarrow> Inl e
      | Inr result \<Rightarrow> Inr (sorted_by_count_reverse result))"

text \<open>
  \<^verbatim>\<open>obj_overhead\<close>: the tracker, its result list, its deque of raw events and its set
  of code objects, counted by type, and two more dictionaries.
\<close>

definition obj_overhead :: "tracker \<Rightarrow> counter" where
  "obj_overhead t =
     (let overhead_count = counter_of [tracker_type, list_type, deque_type, set_type]
      in AList.update dict_type (counter_get overhead_count dict_type + 2) overhead_count)"

section \<open>The trace hook and the run modes\<close>

text \<open>
  The part of the interpreter's state the tracker works on: the trace function in place
  (\<^verbatim>\<open>sys.gettrace()\<close>) and the arguments of the calls of \<^verbatim>\<open>sys.settrace\<close> so far,
  oldest first.
\<close>

record world =
  trace_function :: "trace_fn option"
  settrace_calls :: "trace_fn option list"

definition sys_settrace :: "trace_fn option \<Rightarrow> world \<Rightarrow> world" where
  "sys_settrace f w = w\<lparr>trace_function := f, settrace_calls := settrace_calls w @ [f]\<rparr>"

text \<open>\<^verbatim>\<open>_CodeEventsTracker.__init__\<close>, for the new object's identity and the process id.\<close>

definition tracker_init :: "nat \<Rightarrow> nat \<Rightarrow> world \<Rightarrow> tracker" where
  "tracker_init ident p w =
     \<lparr>self_id = ident, all_code = {}, events_list = [],
      original_trace_function = trace_function w, pid = p,
      resulting_events = [], mem_overhead = None\<rparr>"

text \<open>\<^verbatim>\<open>add_code\<close>, with the nested code objects among \<^verbatim>\<open>co_consts\<close>.\<close>

fun add_code :: "code set \<Rightarrow> code \<Rightarrow> code set"
  and add_subcodes :: "code set \<Rightarrow> pyconst list \<Rightarrow> code set" where
  "add_code all (Code name filename consts) =
     (if Code name filename consts \<notin> all
      then add_subcodes (insert (Code name filename consts) all) consts
      else all)"
| "add_subcodes all [] = all"
| "add_subcodes all (ConstCode subcode # consts) = add_subcodes (add_code all subcode) consts"
| "add_subcodes all (ConstOther # consts) = add_subcodes all consts"

text \<open>\<^verbatim>\<open>__enter__\<close> and \<^verbatim>\<open>__exit__\<close>; the latter returns \<^verbatim>\<open>None\<close>, so an exception of
  the block is raised again after it.\<close>

definition tracker_enter :: "tracker \<Rightarrow> world \<Rightarrow> world" where
  "tracker_enter t w = sys_settrace (Some (TrackerTrace (self_id t))) w"

definition tracker_exit :: "tracker \<Rightarrow> world \<Rightarrow> world" where
  "tracker_exit t w = sys_settrace (original_trace_function t) w"

text \<open>
  \<^verbatim>\<open>_trace_memory_usage\<close>, given the resident memory the process has at the call. A
  code object is in \<^verbatim>\<open>_all_code\<close> when an equal one was added; equality here takes the
  file name into account, which Python's comparison of code objects leaves out.
\<close>

record frame =
  f_lineno :: int
  f_code :: code

definition trace_memory_usage :: "tracker \<Rightarrow> frame \<Rightarrow> string \<Rightarrow> int \<Rightarrow> tracker" where
  "trace_memory_usage t fr event curr_memory =
     (if event = ''line'' \<and> f_code fr \<in> all_code t
      then t\<lparr>events_list := events_list t @
                [(f_lineno fr, curr_memory, co_name (f_code fr), co_filename (f_code fr))]\<rparr>
      else t)"

text \<open>
  \<^verbatim>\<open>compute_mem_overhead\<close>, given the resident memory now and
  \<^verbatim>\<open>builtins.initial_rss_size\<close>.
\<close>

definition compute_mem_overhead :: "int \<Rightarrow> int \<Rightarrow> tracker \<Rightarrow> tracker" where
  "compute_mem_overhead rss initial_rss t = t\<lparr>mem_overhead := Some (rss - initial_rss)\<rparr>"

text \<open>
  The profiled program, as the tracker sees it: the trace events the interpreter raises
  while it runs (frame, event name, resident memory at that moment), the calls of
  \<^verbatim>\<open>sys.settrace\<close> it makes itself, and the exception that ends it, if any.
\<close>

datatype step = TraceEvent frame string int | SetTrace "trace_fn option"

record target =
  steps :: "step list"
  outcome :: "exn option"

text \<open>
  An event reaches the tracker when its trace function is the one in place. (In CPython
  a frame that is already traced keeps its local trace function after the program has
  set another one; the events such a frame still sends are not modelled.)
\<close>

fun run_steps :: "step list \<Rightarrow> tracker \<Rightarrow> world \<Rightarrow> tracker \<times> world" where
  "run_steps [] t w = (t, w)"
| "run_steps (TraceEvent fr event rss # ss) t w =
     (if trace_function w = Some (TrackerTrace (self_id t))
      then run_steps ss (trace_memory_usage t fr event rss) w
      else run_steps ss t w)"
| "run_steps (SetTrace f # ss) t w = run_steps ss t (sys_settrace f w)"

definition run_target :: "target \<Rightarrow> tracker \<Rightarrow> world \<Rightarrow> exn option \<times> tracker \<times> world" where
  "run_target tg t w = (case run_steps (steps tg) t w of (t', w') \<Rightarrow> (outcome tg, t', w'))"

text \<open>
  What a run reads from its environment: the identity of the tracker object it creates,
  the process id, the result of opening and of compiling the file (module mode), of
  \<^verbatim>\<open>base_profile.get_package_code\<close> (package modes) and of reading \<^verbatim>\<open>__code__\<close>
  (function mode), the two memory readings of \<^verbatim>\<open>compute_mem_overhead\<close>, the target,
  and the objects \<^verbatim>\<open>gc.get_objects()\<close> returns before and after the run.
\<close>

record run_input =
  new_tracker_id :: nat
  process_id :: nat
  source_open :: "string option"
  source_compile :: "exn + code"
  package_code :: "exn + code list"
  function_code :: "exn + code"
  rss_at_start :: int
  initial_rss_size :: int
  target :: target
  existing_objects :: "pyobj list"
  new_objects :: "pyobj list"

text \<open>
  \<^verbatim>\<open>with _CodeEventsTracker() as prof: body\<close>: the tracker is created and entered, the
  body runs, and \<^verbatim>\<open>__exit__\<close> runs whether or not the body raised.
\<close>

definition with_tracker ::
  "run_input \<Rightarrow> (tracker \<Rightarrow> world \<Rightarrow> exn option \<times> tracker \<times> world) \<Rightarrow> world
     \<Rightarrow> exn option \<times> tracker \<times> world" where
  "with_tracker inp body w =
     (let prof = tracker_init (new_tracker_id inp) (process_id inp) w;
          w1 = tracker_enter prof w
      in case body prof w1 of (exc, prof', w2) \<Rightarrow> (exc, prof', tracker_exit prof' w2))"

text \<open>\<^verbatim>\<open>try: ... except SystemExit: pass\<close> around a block.\<close>

definition except_SystemExit :: "exn option \<Rightarrow> exn option" where
  "except_SystemExit exc = (if exc = Some SystemExit then None else exc)"

definition returning :: "exn option \<times> tracker \<times> world \<Rightarrow> (exn + tracker) \<times> world" where
  "returning r = (case r of (exc, prof, w) \<Rightarrow>
     (case exc of Some e \<Rightarrow> (Inl e, w) | None \<Rightarrow> (Inr prof, w)))"

text \<open>
  The blocks under \<^verbatim>\<open>with\<close> in the four methods. In the package modes the
  \<^verbatim>\<open>try\<close> is inside the block; in module mode it is around the whole \<^verbatim>\<open>with\<close>
  statement, and the file is compiled inside the block; function mode has no \<^verbatim>\<open>try\<close>.
\<close>

definition package_body ::
  "run_input \<Rightarrow> code list \<Rightarrow> tracker \<Rightarrow> world \<Rightarrow> exn option \<times> tracker \<times> world" where
  "package_body inp pkg_code prof w1 =
     (let prof1 = prof\<lparr>all_code := fold (\<lambda>compiled_code all. add_code all compiled_code)
                                    pkg_code (all_code prof)\<rparr>;
          prof2 = compute_mem_overhead (rss_at_start inp) (initial_rss_size inp) prof1
      in case run_target (target inp) prof2 w1 of
           (exc, prof3, w2) \<Rightarrow> (except_SystemExit exc, prof3, w2))"

definition module_body ::
  "run_input \<Rightarrow> tracker \<Rightarrow> world \<Rightarrow> exn option \<times> tracker \<times> world" where
  "module_body inp prof w1 =
     (case source_compile inp of
        Inl e \<Rightarrow> (Some e, prof, w1)
      | Inr code \<Rightarrow>
          let prof1 = prof\<lparr>all_code := add_code (all_code prof) code\<rparr>;
              prof2 = compute_mem_overhead (rss_at_start inp) (initial_rss_size inp) prof1
          in run_target (target inp) prof2 w1)"

definition function_body ::
  "run_input \<Rightarrow> tracker \<Rightarrow> world \<Rightarrow> exn option \<times> tracker \<times> world" where
  "function_body inp prof w1 =
     (case function_code inp of
        Inl e \<Rightarrow> (Some e, prof, w1)
      | Inr code \<Rightarrow>
          let prof1 = prof\<lparr>all_code := add_code (all_code prof) code\<rparr>;
              prof2 = compute_mem_overhead (rss_at_start inp) (initial_rss_size inp) prof1
          in run_target (target inp) prof2 w1)"

text \<open>
  The two package modes differ in how the code is found and started
  (\<^verbatim>\<open>runpy.run_path\<close> or \<^verbatim>\<open>runpy.run_module\<close>), not in what the tracker does.
\<close>

definition run_as_package :: "run_input \<Rightarrow> world \<Rightarrow> (exn + tracker) \<times> world" where
  "run_as_package inp w =
     (case package_code inp of
        Inl e \<Rightarrow> (Inl e, w)
      | Inr pkg_code \<Rightarrow> returning (with_tracker inp (package_body inp pkg_code) w))"

definition run_as_package_path :: "run_input \<Rightarrow> world \<Rightarrow> (exn + tracker) \<times> world" where
  "run_as_package_path inp w = run_as_package inp w"

definition run_as_package_in_namespace :: "run_input \<Rightarrow> world \<Rightarrow> (exn + tracker) \<times> world" where
  "run_as_package_in_namespace inp w = run_as_package inp w"

definition run_as_module :: "run_input \<Rightarrow> world \<Rightarrow> (exn + tracker) \<times> world" where
  "run_as_module inp w =
     (case source_open inp of
        None \<Rightarrow> (Inl IOError, w)
      | Some srcfile \<Rightarrow>
          (case with_tracker inp (module_body inp) w of
             (exc, prof, w') \<Rightarrow> returning (except_SystemExit exc, prof, w')))"

definition run_as_function :: "run_input \<Rightarrow> world \<Rightarrow> (exn + tracker) \<times> world" where
  "run_as_function inp w = returning (with_tracker inp (function_body inp) w)"

text \<open>
  \<^verbatim>\<open>get_run_dispatcher\<close> of \<^verbatim>\<open>base_profile\<close> chooses one of the four methods from
  the kind of object to run; here the kind is given.
\<close>

datatype run_mode = PackagePathMode | ModuleMode | PackageInNamespaceMode | FunctionMode

definition run_dispatcher :: "run_mode \<Rightarrow> run_input \<Rightarrow> world \<Rightarrow> (exn + tracker) \<times> world" where
  "run_dispatcher mode =
     (case mode of
        PackagePathMode \<Rightarrow> run_as_package_path
      | ModuleMode \<Rightarrow> run_as_module
      | PackageInNamespaceMode \<Rightarrow> run_as_package_in_namespace
      | FunctionMode \<Rightarrow> run_as_function)"

record profile_result =
  objectName :: string
  codeEvents :: "pyval list list"
  totalEvents :: nat
  objectsCount :: "(string \<times> int) list"

text \<open>
  The census of \<^verbatim>\<open>MemoryProfile.run\<close> after the run: the difference of the two
  snapshots, less the tracker's overhead, less one list.
\<close>

definition result_obj_count :: "run_input \<Rightarrow> tracker \<Rightarrow> counter" where
  "result_obj_count inp prof =
     (let new_obj_count = get_obj_count_difference (new_objects inp) (existing_objects inp);
          result_obj_count = counter_sub new_obj_count (obj_overhead prof)
      in AList.update list_type (counter_get result_obj_count list_type - 1) result_obj_count)"

text \<open>\<^verbatim>\<open>MemoryProfile.run\<close>; \<^verbatim>\<open>code_events\<close> is read twice for the result.\<close>

definition run :: "run_mode \<Rightarrow> string \<Rightarrow> run_input \<Rightarrow> world \<Rightarrow> (exn + profile_result) \<times> world" where
  "run mode object_name inp w =
     (case run_dispatcher mode inp w of
        (Inl e, w') \<Rightarrow> (Inl e, w')
      | (Inr prof, w') \<Rightarrow>
          (case format_obj_count (result_obj_count inp prof) of
             Inl e \<Rightarrow> (Inl e, w')
           | Inr pretty_obj_count \<Rightarrow>
               (case code_events prof of
                  (Inl e, prof1) \<Rightarrow> (Inl e, w')
                | (Inr events, prof1) \<Rightarrow>
                    (case code_events prof1 of
                       (Inl e, prof2) \<Rightarrow> (Inl e, w')
                     | (Inr events2, prof2) \<Rightarrow>
                         (Inr \<lparr>objectName = object_name, codeEvents = events,
                               totalEvents = length events2,
                               objectsCount = pretty_obj_count\<rparr>, w')))))"

section \<open>Notions used in the statements\<close>

text \<open>
  The row that the \<^verbatim>\<open>append\<close> branch of \<^verbatim>\<open>code_events\<close> builds for the raw event at
  position \<open>i\<close> of the log, under the overhead \<open>ov\<close>.
\<close>

definition event_row :: "int \<Rightarrow> nat \<Rightarrow> raw_event \<Rightarrow> pyval list" where
  "event_row ov i e = (case e of (lineno, mem, func, fname) \<Rightarrow>
     [PyInt (int i + 1), PyInt lineno, PyFloat (of_int (mem - ov) / of_int BYTES_IN_MB),
      PyStr func, PyStr fname])"

definition float_at_2 :: "pyval list \<Rightarrow> bool" where
  "float_at_2 row = (case row of [a, b, PyFloat m, c, d] \<Rightarrow> True | _ \<Rightarrow> False)"










subsection \<open>Example inputs\<close>

text \<open>A fresh tracker with a given log and overhead.\<close>

definition tracker_with :: "raw_event list \<Rightarrow> int option \<Rightarrow> tracker" where
  "tracker_with evs ov =
     \<lparr>self_id = 7, all_code = {}, events_list = evs, original_trace_function = None,
      pid = 4242, resulting_events = [], mem_overhead = ov\<rparr>"

text \<open>Two visits of line 10 of \<open>f\<close>, the second with less memory than the first.\<close>

definition falling_run :: "raw_event list" where
  "falling_run = [(10, 3145728, ''f'', ''a.py''), (10, 2097152, ''f'', ''a.py'')]"

definition mixed_log :: "raw_event list" where
  "mixed_log = [(5, 1048576, ''g'', ''a.py'')] @ falling_run @ [(11, 2097152, ''f'', ''a.py'')]"

text \<open>
  The name \<^verbatim>\<open>_format_obj_count\<close> shows for a type: the second group of the first
  match in its \<^verbatim>\<open>repr\<close>. The items of a census as they are shown, in the order of the
  census, before sorting. A census all of whose counted types have a name.
\<close>

definition type_name :: "pytype \<Rightarrow> string" where
  "type_name t = (case re_findall (type_repr t) of [] \<Rightarrow> [] | (_, name) # _ \<Rightarrow> name)"

definition rendered_items :: "counter \<Rightarrow> (string \<times> int) list" where
  "rendered_items c = map (\<lambda>(t, n). (type_name t, n)) (filter (\<lambda>(t, n). n \<noteq> 0) c)"

definition all_named :: "counter \<Rightarrow> bool" where
  "all_named c = (\<forall>(t, n)\<in>set c. n \<noteq> 0 \<longrightarrow> re_findall (type_repr t) \<noteq> [])"

definition positive_counts :: "counter \<Rightarrow> bool" where
  "positive_counts c = (\<forall>(t, n)\<in>set c. 0 < n)"

text \<open>The bodies of the two loops of \<^const>\<open>counter_sub\<close>.\<close>

definition sub_step :: "counter \<Rightarrow> pytype \<times> int \<Rightarrow> counter \<Rightarrow> counter" where
  "sub_step other = (\<lambda>(elem, count) result.
                       let newcount = count - counter_get other elem
                       in if newcount > 0 then AList.update elem newcount result else result)"

definition neg_step :: "counter \<Rightarrow> pytype \<times> int \<Rightarrow> counter \<Rightarrow> counter" where
  "neg_step self = (\<lambda>(elem, count) result.
                      if map_of self elem = None \<and> count < 0
                      then AList.update elem (0 - count) result else result)"

text \<open>A run mode finds and compiles its target.\<close>

definition target_loads :: "run_mode \<Rightarrow> run_input \<Rightarrow> bool" where
  "target_loads mode inp =
     (case mode of
        ModuleMode \<Rightarrow> source_open inp \<noteq> None \<and> \<not> isl (source_compile inp)
      | FunctionMode \<Rightarrow> \<not> isl (function_code inp)
      | _ \<Rightarrow> \<not> isl (package_code inp))"

text \<open>
  A type whose \<^verbatim>\<open>repr\<close> is set by its metaclass, and a class of the profiled program.
\<close>

definition opaque_type :: pytype where
  "opaque_type = PyType 9 ''Color''"

definition point_type :: pytype where
  "point_type = PyType 20 (''<class '' @ [CHR 0x27] @ ''__main__.Point'' @ [CHR 0x27] @ ''>'')"

definition obj :: "nat \<Rightarrow> pytype \<Rightarrow> pyobj" where
  "obj i t = \<lparr>id_of = i, type_of = t\<rparr>"

text \<open>No trace function in place; the trace function of another tracker in place.\<close>

definition idle_world :: world where
  "idle_world = \<lparr>trace_function = None, settrace_calls = []\<rparr>"

definition busy_world :: world where
  "busy_world =
     \<lparr>trace_function = Some (TrackerTrace 3), settrace_calls = [Some (TrackerTrace 3)]\<rparr>"

text \<open>A module \<^verbatim>\<open>a.py\<close> with a function \<open>f\<close>, and a run that reaches three lines.\<close>

definition code_f :: code where
  "code_f = Code ''f'' ''a.py'' []"

definition code_main :: code where
  "code_main = Code ''<module>'' ''a.py'' [ConstOther, ConstCode code_f]"

definition line_event :: "int \<Rightarrow> code \<Rightarrow> int \<Rightarrow> step" where
  "line_event l c m = TraceEvent \<lparr>f_lineno = l, f_code = c\<rparr> ''line'' m"

definition example_target :: target where
  "example_target =
     \<lparr>steps = [TraceEvent \<lparr>f_lineno = 1, f_code = code_main\<rparr> ''call'' 2097152,
               line_event 1 code_main 2097152,
               line_event 10 code_f 4194304,
               line_event 10 code_f 3145728],
      outcome = None\<rparr>"

text \<open>
  The objects alive before the run, the objects the profiler itself adds (the list of
  the first snapshot, the tracker, its list, deque and set, two dictionaries), and a run
  after which two points of the program stay alive, one of them listed twice.
\<close>

definition objects_before :: "pyobj list" where
  "objects_before = [obj 100 dict_type, obj 101 list_type, obj 102 list_type,
                     obj 103 list_type, obj 104 frame_type]"

definition profiler_objects :: "pyobj list" where
  "profiler_objects = [obj 200 list_type, obj 201 tracker_type, obj 202 list_type,
                       obj 203 deque_type, obj 204 set_type, obj 205 dict_type,
                       obj 206 dict_type]"

definition example_input :: run_input where
  "example_input =
     \<lparr>new_tracker_id = 7, process_id = 4242, source_open = Some ''f()'',
      source_compile = Inr code_main, package_code = Inr [code_main],
      function_code = Inr code_f, rss_at_start = 2097152, initial_rss_size = 1048576,
      target = example_target, existing_objects = objects_before,
      new_objects = objects_before @ profiler_objects
                    @ [obj 300 point_type, obj 301 point_type, obj 300 point_type]\<rparr>"

text \<open>The program drops two of the lists that were alive before the run.\<close>

definition freed_lists_input :: run_input where
  "freed_lists_input =
     example_input\<lparr>new_objects := [obj 100 dict_type, obj 101 list_type] @ profiler_objects
                                    @ [obj 300 point_type, obj 301 point_type]\<rparr>"

text \<open>The program keeps an object of the type without a name.\<close>

definition opaque_input :: run_input where
  "opaque_input =
     example_input\<lparr>new_objects := objects_before @ profiler_objects @ [obj 300 opaque_type]\<rparr>"

text \<open>The program ends with \<^verbatim>\<open>sys.exit()\<close> after its three lines.\<close>

definition exiting_input :: run_input where
  "exiting_input = example_input\<lparr>target := example_target\<lparr>outcome := Some SystemExit\<rparr>\<rparr>"

text \<open>The file of the module does not compile.\<close>

definition bad_source_input :: run_input where
  "bad_source_input = example_input\<lparr>source_compile := Inl SyntaxError\<rparr>"

text \<open>
  The tracker that module mode returns for \<open>example_input\<close>, the tracker that function
  mode returns for it, and the rows of the former.
\<close>

definition module_tracker :: tracker where
  "module_tracker =
     \<lparr>self_id = 7, all_code = {code_main, code_f},
      events_list = [(1, 2097152, ''<module>'', ''a.py''), (10, 4194304, ''f'', ''a.py''),
                     (10, 3145728, ''f'', ''a.py'')],
      original_trace_function = None, pid = 4242, resulting_events = [],
      mem_overhead = Some 1048576\<rparr>"

definition function_tracker :: tracker where
  "function_tracker =
     \<lparr>self_id = 7, all_code = {code_f},
      events_list = [(10, 4194304, ''f'', ''a.py''), (10, 3145728, ''f'', ''a.py'')],
      original_trace_function = None, pid = 4242, resulting_events = [],
      mem_overhead = Some 1048576\<rparr>"

definition example_rows :: "pyval list list" where
  "example_rows = [[PyInt 1, PyInt 1, PyFloat 1, PyStr ''<module>'', PyStr ''a.py''],
                   [PyInt 2, PyInt 10, PyFloat 3, PyStr ''f'', PyStr ''a.py''],
                   [PyInt 3, PyInt 10, PyFloat 2, PyStr ''f'', PyStr ''a.py'']]"

text \<open>
  A trace function of a debugger in place. A program that sets a trace function of its
  own and then raises; a file that cannot be opened; a package that cannot be found; an
  object to run that has no \<^verbatim>\<open>__code__\<close>.
\<close>

definition debugger_world :: world where
  "debugger_world = \<lparr>trace_function = Some (ForeignTrace 1), settrace_calls = []\<rparr>"

definition raising_input :: run_input where
  "raising_input =
     example_input\<lparr>target :=
       \<lparr>steps = [line_event 1 code_main 2097152, SetTrace (Some (ForeignTrace 9)),
                 line_event 10 code_f 3145728],
        outcome = Some (TargetError ''ValueError'')\<rparr>\<rparr>"

definition unreadable_input :: run_input where
  "unreadable_input = example_input\<lparr>source_open := None\<rparr>"

definition missing_package_input :: run_input where
  "missing_package_input = example_input\<lparr>package_code := Inl ImportError\<rparr>"

definition no_code_input :: run_input where
  "no_code_input = example_input\<lparr>function_code := Inl AttributeError\<rparr>"

section \<open>Properties of \<^verbatim>\<open>code_events\<close>\<close>

lemma py_getitem_last: "xs \<noteq> [] \<Longrightarrow> py_getitem xs (-1) = Inr (last xs)"
proof -
  assume ne: "xs \<noteq> []"
  then have l: "1 \<le> int (length xs)" by (cases xs) simp_all
  have "nat (int (length xs) - 1) = length xs - 1" by arith
  with l have "py_index (length xs) (-1) = Some (length xs - 1)"
    by (simp add: py_index_def)
  then show ?thesis using ne by (simp add: py_getitem_def last_conv_nth)
qed

lemma py_getitem_first: "py_getitem xs 0 = (case xs of [] \<Rightarrow> Inl IndexError | x # _ \<Rightarrow> Inr x)"
  by (cases xs) (simp_all add: py_getitem_def py_index_def)

lemma last_event_matches_float:
  assumes "res = [] \<or> float_at_2 (last res)"
  shows "last_event_matches res lineno m func fname = Inr False"
proof (cases "res = []")
  case True
  then show ?thesis by (simp add: last_event_matches_def)
next
  case False
  with assms have f: "float_at_2 (last res)" by simp
  have g: "py_getitem res (-1) = Inr (last res)"
    using False by (rule py_getitem_last)
  from f obtain a b x c d where r: "last res = [a, b, PyFloat x, c, d]"
    by (auto simp: float_at_2_def split: list.splits pyval.splits)
  show ?thesis using False g r
    by (simp add: last_event_matches_def py_getitem_def py_index_def)
qed

lemma float_at_2_event_row: "float_at_2 (event_row ov i e)"
  by (cases e) (simp add: event_row_def float_at_2_def)

text \<open>
  The third position of a row holds the float, and the condition compares it with the
  unit name: no row is ever updated, and each raw event gets a row of its own.
\<close>

lemma code_events_loop_rows:
  "res = [] \<or> float_at_2 (last res) \<Longrightarrow>
   code_events_loop (Some ov) i evs res =
     (None, res @ map (\<lambda>(k, e). event_row ov k e) (enumerate i evs))"
proof (induction evs arbitrary: i res)
  case Nil
  then show ?case by simp
next
  case (Cons e evs)
  obtain lineno mem func fname where e: "e = (lineno, mem, func, fname)" by (cases e)
  have m: "last_event_matches res lineno (PyFloat (of_int (mem - ov) / of_int BYTES_IN_MB))
             func fname = Inr False"
    using Cons.prems by (rule last_event_matches_float)
  have "float_at_2 (last (res @ [event_row ov i e]))" by (simp add: float_at_2_event_row)
  then have "code_events_loop (Some ov) (i + 1) evs (res @ [event_row ov i e])
      = (None, (res @ [event_row ov i e]) @
               map (\<lambda>(k, e). event_row ov k e) (enumerate (i + 1) evs))"
    using Cons.IH by blast
  then show ?case using m e by (simp add: event_row_def)
qed

lemma code_events_loop_no_overhead:
  "code_events_loop None i evs res = (if evs = [] then (None, res) else (Some TypeError, res))"
  by (cases evs) auto

lemma code_events_cases:
  "code_events t =
     (if resulting_events t \<noteq> [] then (Inr (resulting_events t), t)
      else case mem_overhead t of
             None \<Rightarrow> (if events_list t = [] then (Inr [], t) else (Inl TypeError, t))
           | Some ov \<Rightarrow>
               (let rows = map (\<lambda>(k, e). event_row ov k e) (enumerate 0 (events_list t))
                in (Inr rows, t\<lparr>resulting_events := rows\<rparr>)))"
proof (cases "resulting_events t \<noteq> []")
  case True
  then show ?thesis by (simp add: code_events_def)
next
  case False
  then have e: "resulting_events t = []" by simp
  then have u: "t\<lparr>resulting_events := []\<rparr> = t" by (cases t) simp
  show ?thesis
  proof (cases "mem_overhead t")
    case None
    then show ?thesis using e u by (simp add: code_events_def code_events_loop_no_overhead)
  next
    case (Some ov)
    then show ?thesis using e code_events_loop_rows[of "[]" ov 0 "events_list t"]
      by (simp add: code_events_def Let_def)
  qed
qed

lemma code_events_fresh:
  assumes "mem_overhead t = Some ov" "resulting_events t = []"
  shows "fst (code_events t) = Inr (map (\<lambda>(k, e). event_row ov k e) (enumerate 0 (events_list t)))"
  using assms by (simp add: code_events_cases Let_def)









text \<open>
  C7: a tracker whose \<^verbatim>\<open>_resulting_events\<close> is not empty returns that list as it is,
  whatever its log and its overhead hold, and stays as it was: the loop is not entered.
  A second read of \<^verbatim>\<open>code_events\<close> gives what the first read gave, an equal list or
  the same exception, and leaves the tracker as the first read left it. When the first
  read returned a list, that list is the one stored in \<^verbatim>\<open>_resulting_events\<close>; either
  it is not empty, or the log is empty and the loop has no event to go through; and when
  it is not empty, every later read returns it, even after the log or the overhead has
  changed.
\<close>

theorem code_events_memoized:
  "(resulting_events t \<noteq> [] \<longrightarrow> code_events t = (Inr (resulting_events t), t)) \<and>
   code_events (snd (code_events t)) = code_events t \<and>
   (\<forall>r. fst (code_events t) = Inr r \<longrightarrow>
      resulting_events (snd (code_events t)) = r \<and>
      (r \<noteq> [] \<or> events_list (snd (code_events t)) = []) \<and>
      (r \<noteq> [] \<longrightarrow>
         (\<forall>evs ov.
            code_events ((snd (code_events t))\<lparr>events_list := evs, mem_overhead := ov\<rparr>)
              = (Inr r, (snd (code_events t))\<lparr>events_list := evs, mem_overhead := ov\<rparr>))))"
proof -
  have cached: "code_events u = (Inr (resulting_events u), u)" if "resulting_events u \<noteq> []" for u
    using that by (simp add: code_events_def)
  have again: "code_events (snd (code_events t)) = code_events t"
  proof (cases "resulting_events t \<noteq> []")
    case True
    then show ?thesis by (simp add: cached)
  next
    case False
    then have e: "resulting_events t = []" by simp
    show ?thesis
    proof (cases "mem_overhead t")
      case None
      then show ?thesis using e by (simp add: code_events_cases)
    next
      case (Some ov)
      show ?thesis
      proof (cases "events_list t")
        case Nil
        then show ?thesis using e Some by (simp add: code_events_cases)
      next
        case (Cons x xs)
        then show ?thesis using e Some by (simp add: code_events_cases Let_def)
      qed
    qed
  qed
  have stored: "resulting_events (snd (code_events t)) = r \<and>
                (r \<noteq> [] \<or> events_list (snd (code_events t)) = [])"
    if "fst (code_events t) = Inr r" for r
  proof (cases "resulting_events t \<noteq> []")
    case True
    then show ?thesis using that by (auto simp: cached)
  next
    case False
    then have e: "resulting_events t = []" by simp
    show ?thesis
    proof (cases "mem_overhead t")
      case None
      then show ?thesis using e that by (auto simp: code_events_cases split: if_splits)
    next
      case (Some ov)
      show ?thesis
      proof (cases "events_list t")
        case Nil
        then show ?thesis using e Some that by (auto simp: code_events_cases)
      next
        case (Cons x xs)
        then show ?thesis using e Some that by (auto simp: code_events_cases Let_def)
      qed
    qed
  qed
  have later: "code_events ((snd (code_events t))\<lparr>events_list := evs, mem_overhead := ov\<rparr>)
                 = (Inr r, (snd (code_events t))\<lparr>events_list := evs, mem_overhead := ov\<rparr>)"
    if "fst (code_events t) = Inr r" and "r \<noteq> []" for r evs ov
  proof -
    let ?u = "(snd (code_events t))\<lparr>events_list := evs, mem_overhead := ov\<rparr>"
    from stored[OF that(1)] have "resulting_events ?u = r" by simp
    with that(2) cached[of ?u] show ?thesis by simp
  qed
  from cached[of t] again stored later show ?thesis by blast
qed

theorem code_events_memoized_witness:
  "fst (code_events (tracker_with falling_run (Some 1048576))) =
     Inr [[PyInt 1, PyInt 10, PyFloat 2, PyStr ''f'', PyStr ''a.py''],
          [PyInt 2, PyInt 10, PyFloat 1, PyStr ''f'', PyStr ''a.py'']] \<and>
   code_events (snd (code_events (tracker_with falling_run (Some 1048576))))
     = code_events (tracker_with falling_run (Some 1048576)) \<and>
   resulting_events (snd (code_events (tracker_with falling_run (Some 1048576)))) =
     [[PyInt 1, PyInt 10, PyFloat 2, PyStr ''f'', PyStr ''a.py''],
      [PyInt 2, PyInt 10, PyFloat 1, PyStr ''f'', PyStr ''a.py'']] \<and>
   fst (code_events ((snd (code_events (tracker_with falling_run (Some 1048576))))
                       \<lparr>events_list := mixed_log, mem_overhead := None\<rparr>)) =
     Inr [[PyInt 1, PyInt 10, PyFloat 2, PyStr ''f'', PyStr ''a.py''],
          [PyInt 2, PyInt 10, PyFloat 1, PyStr ''f'', PyStr ''a.py'']] \<and>
   code_events ((tracker_with mixed_log None)
                  \<lparr>resulting_events := [[PyInt 1, PyInt 5, PyFloat 0, PyStr ''g'', PyStr ''a.py'']]\<rparr>) =
     (Inr [[PyInt 1, PyInt 5, PyFloat 0, PyStr ''g'', PyStr ''a.py'']],
      (tracker_with mixed_log None)
        \<lparr>resulting_events := [[PyInt 1, PyInt 5, PyFloat 0, PyStr ''g'', PyStr ''a.py'']]\<rparr>)"
proof -
  let ?t = "tracker_with falling_run (Some 1048576)"
  let ?rows = "[[PyInt 1, PyInt 10, PyFloat 2, PyStr ''f'', PyStr ''a.py''],
                [PyInt 2, PyInt 10, PyFloat 1, PyStr ''f'', PyStr ''a.py'']]"
  let ?u = "(tracker_with mixed_log None)
              \<lparr>resulting_events := [[PyInt 1, PyInt 5, PyFloat 0, PyStr ''g'', PyStr ''a.py'']]\<rparr>"
  have h: "fst (code_events ?t) = Inr ?rows"
    by (simp add: code_events_fresh tracker_with_def falling_run_def event_row_def
          BYTES_IN_MB_def)
  have n: "?rows \<noteq> []" by simp
  have s: "resulting_events ?u = [[PyInt 1, PyInt 5, PyFloat 0, PyStr ''g'', PyStr ''a.py'']]"
    by simp
  have m: "resulting_events ?u \<noteq> []" by simp
  from code_events_memoized[of ?t] h n
  have a: "code_events (snd (code_events ?t)) = code_events ?t \<and>
           resulting_events (snd (code_events ?t)) = ?rows \<and>
           fst (code_events ((snd (code_events ?t))
                  \<lparr>events_list := mixed_log, mem_overhead := None\<rparr>)) = Inr ?rows"
    by simp
  from code_events_memoized[of ?u] m have b: "code_events ?u = (Inr (resulting_events ?u), ?u)"
    by blast
  from a b h s show ?thesis by simp
qed

section \<open>Properties of the run modes\<close>

subsection \<open>The tracker keeps its identity and the hook it found\<close>

lemma trace_memory_usage_keeps:
  "self_id (trace_memory_usage t fr ev m) = self_id t \<and>
   original_trace_function (trace_memory_usage t fr ev m) = original_trace_function t"
  by (simp add: trace_memory_usage_def)

lemma run_steps_keeps:
  "run_steps ss t w = (t', w') \<Longrightarrow>
   self_id t' = self_id t \<and> original_trace_function t' = original_trace_function t"
proof (induction ss t w rule: run_steps.induct)
  case (1 t w)
  then show ?case by simp
next
  case (2 fr event rss ss t w)
  then show ?case by (auto simp: trace_memory_usage_keeps split: if_splits)
next
  case (3 f ss t w)
  then show ?case by simp
qed

lemma run_target_keeps:
  "run_target tg t w = (exc, t', w') \<Longrightarrow>
   original_trace_function t' = original_trace_function t \<and> exc = outcome tg"
  by (auto simp: run_target_def split: prod.splits dest: run_steps_keeps)

lemma with_tracker_restores:
  assumes "\<And>prof w1 exc prof' w2. body prof w1 = (exc, prof', w2) \<Longrightarrow>
             original_trace_function prof' = original_trace_function prof"
  shows "trace_function (snd (snd (with_tracker inp body w))) = trace_function w"
proof -
  let ?prof = "tracker_init (new_tracker_id inp) (process_id inp) w"
  obtain exc prof' w2 where b: "body ?prof (tracker_enter ?prof w) = (exc, prof', w2)"
    by (cases "body ?prof (tracker_enter ?prof w)") auto
  from assms[OF b] have "original_trace_function prof' = trace_function w"
    by (simp add: tracker_init_def)
  then show ?thesis using b
    by (simp add: with_tracker_def Let_def tracker_exit_def sys_settrace_def)
qed

lemma with_tracker_exc:
  "fst (with_tracker inp body w) =
     fst (body (tracker_init (new_tracker_id inp) (process_id inp) w)
               (tracker_enter (tracker_init (new_tracker_id inp) (process_id inp) w) w))"
  by (simp add: with_tracker_def Let_def split: prod.splits)

lemma returning_world: "snd (returning r) = snd (snd r)"
  by (cases r) (simp add: returning_def split: option.splits)

lemma returning_value:
  "fst (returning r) = (case fst r of Some e \<Rightarrow> Inl e | None \<Rightarrow> Inr (fst (snd r)))"
  by (cases r) (simp add: returning_def split: option.splits)

lemma module_body_keeps:
  "module_body inp prof w1 = (exc, prof', w2) \<Longrightarrow>
   original_trace_function prof' = original_trace_function prof"
  by (auto simp: module_body_def Let_def compute_mem_overhead_def split: sum.splits
           dest!: run_target_keeps)

lemma function_body_keeps:
  "function_body inp prof w1 = (exc, prof', w2) \<Longrightarrow>
   original_trace_function prof' = original_trace_function prof"
  by (auto simp: function_body_def Let_def compute_mem_overhead_def split: sum.splits
           dest!: run_target_keeps)

lemma package_body_keeps:
  "package_body inp pkg prof w1 = (exc, prof', w2) \<Longrightarrow>
   original_trace_function prof' = original_trace_function prof"
  by (auto simp: package_body_def Let_def compute_mem_overhead_def split: prod.splits
           dest!: run_target_keeps)

lemma run_as_module_hook: "trace_function (snd (run_as_module inp w)) = trace_function w"
proof (cases "source_open inp")
  case None
  then show ?thesis by (simp add: run_as_module_def)
next
  case (Some src)
  have "trace_function (snd (snd (with_tracker inp (module_body inp) w))) = trace_function w"
    by (rule with_tracker_restores) (rule module_body_keeps)
  then show ?thesis using Some
    by (cases "with_tracker inp (module_body inp) w") (simp add: run_as_module_def returning_world)
qed

lemma run_as_function_hook: "trace_function (snd (run_as_function inp w)) = trace_function w"
proof -
  have "trace_function (snd (snd (with_tracker inp (function_body inp) w))) = trace_function w"
    by (rule with_tracker_restores) (rule function_body_keeps)
  then show ?thesis by (simp add: run_as_function_def returning_world)
qed

lemma run_as_package_hook: "trace_function (snd (run_as_package inp w)) = trace_function w"
proof (cases "package_code inp")
  case (Inl e)
  then show ?thesis by (simp add: run_as_package_def)
next
  case (Inr pkg)
  have "trace_function (snd (snd (with_tracker inp (package_body inp pkg) w))) = trace_function w"
    by (rule with_tracker_restores) (rule package_body_keeps)
  then show ?thesis using Inr by (simp add: run_as_package_def returning_world)
qed

lemma run_dispatcher_hook: "trace_function (snd (run_dispatcher mode inp w)) = trace_function w"
  by (cases mode)
     (simp_all add: run_dispatcher_def run_as_package_path_def run_as_package_in_namespace_def
        run_as_module_hook run_as_function_hook run_as_package_hook)

lemma run_target_exc: "fst (run_target tg t w) = outcome tg"
  by (simp add: run_target_def split: prod.splits)

lemma module_raises:
  assumes "source_open inp \<noteq> None" "\<not> isl (source_compile inp)"
  shows "fst (run_as_module inp w) =
     (case except_SystemExit (outcome (target inp)) of
        Some e \<Rightarrow> Inl e
      | None \<Rightarrow> Inr (fst (snd (with_tracker inp (module_body inp) w))))"
proof -
  from assms obtain src code where s: "source_open inp = Some src" "source_compile inp = Inr code"
    by (cases "source_open inp"; cases "source_compile inp") auto
  have "fst (with_tracker inp (module_body inp) w) = outcome (target inp)"
    using s by (simp add: with_tracker_exc module_body_def Let_def run_target_exc)
  then show ?thesis using s
    by (cases "with_tracker inp (module_body inp) w")
       (simp add: run_as_module_def returning_value split: option.splits)
qed

lemma function_raises:
  assumes "\<not> isl (function_code inp)"
  shows "fst (run_as_function inp w) =
     (case outcome (target inp) of
        Some e \<Rightarrow> Inl e
      | None \<Rightarrow> Inr (fst (snd (with_tracker inp (function_body inp) w))))"
proof -
  from assms obtain code where s: "function_code inp = Inr code"
    by (cases "function_code inp") auto
  have "fst (with_tracker inp (function_body inp) w) = outcome (target inp)"
    using s by (simp add: with_tracker_exc function_body_def Let_def run_target_exc)
  then show ?thesis
    by (simp add: run_as_function_def returning_value)
qed

lemma package_raises:
  assumes "package_code inp = Inr pkg"
  shows "fst (run_as_package inp w) =
     (case except_SystemExit (outcome (target inp)) of
        Some e \<Rightarrow> Inl e
      | None \<Rightarrow> Inr (fst (snd (with_tracker inp (package_body inp pkg) w))))"
proof -
  have b: "fst (package_body inp pkg prof w1) = except_SystemExit (outcome (target inp))"
    for prof w1
  proof -
    let ?r = "run_target (target inp)
                (compute_mem_overhead (rss_at_start inp) (initial_rss_size inp)
                   (prof\<lparr>all_code := fold (\<lambda>compiled_code all. add_code all compiled_code)
                                          pkg (all_code prof)\<rparr>)) w1"
    have "fst ?r = outcome (target inp)" by (rule run_target_exc)
    then show ?thesis by (cases ?r) (simp add: package_body_def Let_def)
  qed
  have "fst (with_tracker inp (package_body inp pkg) w) = except_SystemExit (outcome (target inp))"
    by (simp add: with_tracker_exc b)
  then show ?thesis using assms
    by (simp add: run_as_package_def returning_value)
qed

text \<open>What a run mode returns, once its target is found and compiled.\<close>

lemma run_dispatcher_value:
  assumes "target_loads mode inp"
  shows "isl (fst (run_dispatcher mode inp w)) \<longleftrightarrow>
           (if mode = FunctionMode then outcome (target inp) \<noteq> None
            else except_SystemExit (outcome (target inp)) \<noteq> None)"
proof (cases mode)
  case ModuleMode
  then show ?thesis using assms
    by (simp add: run_dispatcher_def target_loads_def module_raises split: option.splits)
next
  case FunctionMode
  then show ?thesis using assms
    by (simp add: run_dispatcher_def target_loads_def function_raises split: option.splits)
next
  case PackagePathMode
  with assms obtain pkg where "package_code inp = Inr pkg"
    by (cases "package_code inp") (auto simp: target_loads_def)
  then show ?thesis using PackagePathMode
    by (simp add: run_dispatcher_def run_as_package_path_def package_raises
          split: option.splits)
next
  case PackageInNamespaceMode
  with assms obtain pkg where "package_code inp = Inr pkg"
    by (cases "package_code inp") (auto simp: target_loads_def)
  then show ?thesis using PackageInNamespaceMode
    by (simp add: run_dispatcher_def run_as_package_in_namespace_def package_raises
          split: option.splits)
qed

lemmas run_eval = run_def run_dispatcher_def run_as_module_def run_as_function_def
  run_as_package_path_def run_as_package_in_namespace_def run_as_package_def
  module_body_def function_body_def package_body_def
  with_tracker_def returning_def except_SystemExit_def run_target_def tracker_init_def
  tracker_enter_def tracker_exit_def sys_settrace_def compute_mem_overhead_def
  trace_memory_usage_def idle_world_def busy_world_def example_target_def line_event_def
  code_main_def code_f_def

subsection \<open>The example run\<close>

lemma module_run_tracker:
  "run_dispatcher ModuleMode (example_input\<lparr>new_objects := objs\<rparr>) idle_world
     = (Inr module_tracker,
        \<lparr>trace_function = None, settrace_calls = [Some (TrackerTrace 7), None]\<rparr>)"
  by (simp add: run_eval example_input_def module_tracker_def Let_def insert_commute)

lemma module_tracker_events:
  "code_events module_tracker = (Inr example_rows, module_tracker\<lparr>resulting_events := example_rows\<rparr>)"
  by (simp add: code_events_cases module_tracker_def example_rows_def event_row_def BYTES_IN_MB_def Let_def)

lemma module_tracker_events2:
  "code_events (module_tracker\<lparr>resulting_events := example_rows\<rparr>)
     = (Inr example_rows, module_tracker\<lparr>resulting_events := example_rows\<rparr>)"
  by (simp add: code_events_def example_rows_def)

section \<open>Properties of the census\<close>

subsection \<open>Counters\<close>

lemma positive_counts_update:
  "positive_counts c \<Longrightarrow> 0 < v \<Longrightarrow> positive_counts (AList.update k v c)"
  by (induction c) (auto simp: positive_counts_def)

lemma counter_get_nonneg: "positive_counts c \<Longrightarrow> 0 \<le> counter_get c k"
  by (auto simp: counter_get_def positive_counts_def split: option.splits dest!: map_of_SomeD)

lemma counter_of_fold_inv:
  "positive_counts acc \<Longrightarrow> distinct (map fst acc) \<Longrightarrow>
   positive_counts (fold (\<lambda>elem c. AList.update elem (counter_get c elem + 1) c) elems acc) \<and>
   distinct (map fst (fold (\<lambda>elem c. AList.update elem (counter_get c elem + 1) c) elems acc))"
proof (induction elems arbitrary: acc)
  case Nil
  then show ?case by simp
next
  case (Cons e elems)
  have "0 < counter_get acc e + 1" using counter_get_nonneg[OF Cons.prems(1), of e] by simp
  then have "positive_counts (AList.update e (counter_get acc e + 1) acc)"
    using Cons.prems(1) by (rule positive_counts_update[rotated])
  moreover have "distinct (map fst (AList.update e (counter_get acc e + 1) acc))"
    using Cons.prems(2) by (rule distinct_update)
  ultimately show ?case using Cons.IH by simp
qed

lemma counter_of_positive: "positive_counts (counter_of elems)"
  using counter_of_fold_inv[of "[]" elems] by (simp add: counter_of_def positive_counts_def)

lemma counter_of_distinct: "distinct (map fst (counter_of elems))"
  using counter_of_fold_inv[of "[]" elems] by (simp add: counter_of_def positive_counts_def)

lemma counter_sub_steps:
  "counter_sub self other = fold (neg_step self) other (fold (sub_step other) self [])"
  by (simp add: counter_sub_def sub_step_def neg_step_def Let_def)

text \<open>The second loop does nothing when \<open>other\<close> counts objects.\<close>

lemma neg_step_idle: "positive_counts other \<Longrightarrow> fold (neg_step self) other acc = acc"
proof (induction other arbitrary: acc)
  case Nil
  then show ?case by simp
next
  case (Cons p other)
  from Cons.prems have "positive_counts other" and "0 < snd p"
    by (auto simp: positive_counts_def)
  then show ?case using Cons.IH by (cases p) (simp add: neg_step_def)
qed

lemma sub_fold_inv:
  "positive_counts acc \<Longrightarrow> distinct (map fst acc) \<Longrightarrow>
   positive_counts (fold (sub_step other) self acc) \<and>
   distinct (map fst (fold (sub_step other) self acc))"
proof (induction self arbitrary: acc)
  case Nil
  then show ?case by simp
next
  case (Cons p self)
  obtain k v where p: "p = (k, v)" by (cases p)
  have "positive_counts (sub_step other p acc) \<and> distinct (map fst (sub_step other p acc))"
    using Cons.prems p by (auto simp: sub_step_def Let_def positive_counts_update distinct_update)
  then show ?case using Cons.IH by simp
qed

lemma neg_fold_inv:
  "positive_counts acc \<Longrightarrow> distinct (map fst acc) \<Longrightarrow>
   positive_counts (fold (neg_step self) other acc) \<and>
   distinct (map fst (fold (neg_step self) other acc))"
proof (induction other arbitrary: acc)
  case Nil
  then show ?case by simp
next
  case (Cons p other)
  obtain k v where p: "p = (k, v)" by (cases p)
  have "positive_counts (neg_step self p acc) \<and> distinct (map fst (neg_step self p acc))"
    using Cons.prems p by (auto simp: neg_step_def positive_counts_update distinct_update)
  then show ?case using Cons.IH by simp
qed

lemma counter_sub_positive: "positive_counts (counter_sub self other)"
  using neg_fold_inv[of "fold (sub_step other) self []" self other] sub_fold_inv[of "[]" other self]
  by (simp add: counter_sub_steps positive_counts_def)

lemma counter_sub_distinct: "distinct (map fst (counter_sub self other))"
  using neg_fold_inv[of "fold (sub_step other) self []" self other] sub_fold_inv[of "[]" other self]
  by (simp add: counter_sub_steps positive_counts_def)

lemma sub_fold_get:
  "distinct (map fst self) \<Longrightarrow>
   map_of (fold (sub_step other) self acc) t =
     (case map_of self t of
        None \<Rightarrow> map_of acc t
      | Some v \<Rightarrow>
          if 0 < v - counter_get other t then Some (v - counter_get other t) else map_of acc t)"
proof (induction self arbitrary: acc)
  case Nil
  then show ?case by simp
next
  case (Cons p self)
  obtain k v where p: "p = (k, v)" by (cases p)
  from Cons.prems p have d: "distinct (map fst self)" and nk: "map_of self k = None"
    by (auto simp: map_of_eq_None_iff)
  show ?case
  proof (cases "t = k")
    case True
    then show ?thesis using Cons.IH[OF d] nk p
      by (simp add: sub_step_def Let_def update_conv')
  next
    case False
    then show ?thesis using Cons.IH[OF d] p
      by (simp add: sub_step_def Let_def update_conv' split: option.splits)
  qed
qed

text \<open>Subtracting a count of objects is subtraction cut off at zero.\<close>

lemma counter_sub_get:
  assumes "distinct (map fst self)" and "positive_counts other"
  shows "counter_get (counter_sub self other) t
           = max 0 (counter_get self t - counter_get other t)"
proof -
  have "counter_sub self other = fold (sub_step other) self []"
    using assms(2) by (simp add: counter_sub_steps neg_step_idle)
  then have "map_of (counter_sub self other) t =
     (case map_of self t of None \<Rightarrow> None
      | Some v \<Rightarrow> if 0 < v - counter_get other t then Some (v - counter_get other t) else None)"
    using sub_fold_get[OF assms(1), of other "[]" t] by (simp split: option.splits)
  moreover have "0 \<le> counter_get other t" using assms(2) by (rule counter_get_nonneg)
  ultimately show ?thesis
    by (auto simp: counter_get_def split: option.splits)
qed

lemma obj_overhead_positive: "positive_counts (obj_overhead prof)"
proof -
  let ?c = "counter_of [tracker_type, list_type, deque_type, set_type]"
  have p: "positive_counts ?c" by (rule counter_of_positive)
  then have "0 < counter_get ?c dict_type + 2"
    using counter_get_nonneg[OF p, of dict_type] by simp
  with p show ?thesis by (simp add: obj_overhead_def Let_def positive_counts_update)
qed

lemma set_update_cases:
  "(t, n) \<in> set (AList.update k v c) \<Longrightarrow> (t, n) = (k, v) \<or> (t, n) \<in> set c"
  by (induction c) (auto split: if_splits)

lemmas census_eval = result_obj_count_def get_obj_count_difference_def
  process_in_memory_objects_def remove_duplicates_def isframe_def get_object_count_by_type_def
  counter_of_def counter_sub_def counter_get_def obj_overhead_def obj_def
  list_type_def dict_type_def set_type_def deque_type_def tracker_type_def frame_type_def
  point_type_def opaque_type_def objects_before_def profiler_objects_def

lemmas regex_eval = re_findall_def match_at_def is_word_char_def is_space_char_def

subsection \<open>The formatter\<close>

lemma format_obj_count_loop_eq:
  "format_obj_count_loop c acc =
     (if all_named c then Inr (acc @ rendered_items c) else Inl IndexError)"
proof (induction c arbitrary: acc)
  case Nil
  show ?case by (simp add: all_named_def rendered_items_def)
next
  case (Cons p c)
  obtain t n where p: "p = (t, n)" by (cases p)
  show ?case
  proof (cases "n = 0")
    case True
    then show ?thesis using Cons.IH p by (simp add: all_named_def rendered_items_def)
  next
    case False
    show ?thesis
    proof (cases "re_findall (type_repr t)")
      case Nil
      then show ?thesis using False p
        by (simp add: all_named_def py_getitem_first)
    next
      case (Cons g gs)
      obtain ty name where g: "g = (ty, name)" by (cases g)
      have "format_obj_count_loop (p # c) acc = format_obj_count_loop c (acc @ [(name, n)])"
        using False p Cons g by (simp add: py_getitem_first)
      also have "\<dots> = (if all_named c then Inr ((acc @ [(name, n)]) @ rendered_items c)
                        else Inl IndexError)"
        by (rule Cons.IH)
      finally show ?thesis using False p Cons g
        by (simp add: all_named_def rendered_items_def type_name_def)
    qed
  qed
qed

lemma format_obj_count_eq:
  "format_obj_count c =
     (if all_named c then Inr (sorted_by_count_reverse (rendered_items c)) else Inl IndexError)"
  by (simp add: format_obj_count_def format_obj_count_loop_eq)

lemma type_name_list: "type_name list_type = ''list''"
  by (simp add: type_name_def list_type_def regex_eval)

text \<open>
  C9: what the formatter returns is in descending order of count, and for every count
  the items with that count are the items of the census with that count, in the order of
  the census.
\<close>

theorem format_obj_count_sorted_stable:
  assumes "format_obj_count c = Inr r"
  shows "sorted_wrt (\<lambda>a b. snd a \<ge> snd b) r \<and>
         (\<forall>k. filter (\<lambda>item. snd item = k) r
                = filter (\<lambda>item. snd item = k) (rendered_items c))"
proof -
  from assms have r: "r = sort_key (\<lambda>item. - snd item) (rendered_items c)"
    by (simp add: format_obj_count_eq sorted_by_count_reverse_def split: if_splits)
  have "sorted (map (\<lambda>item. - snd item) r)" unfolding r by (rule sorted_sort_key)
  then have s: "sorted_wrt (\<lambda>a b. snd a \<ge> snd b) r"
    by (simp add: sorted_wrt_map)
  have "\<forall>k. filter (\<lambda>item. snd item = k) r = filter (\<lambda>item. snd item = k) (rendered_items c)"
  proof
    fix k :: int
    have "filter (\<lambda>item. - snd item = - k) r
            = filter (\<lambda>item. - snd item = - k) (rendered_items c)"
      unfolding r by (rule sort_key_stable)
    then show "filter (\<lambda>item. snd item = k) r
                 = filter (\<lambda>item. snd item = k) (rendered_items c)"
      by simp
  qed
  with s show ?thesis by simp
qed

theorem format_obj_count_sorted_stable_witness:
  "format_obj_count [(list_type, 2), (dict_type, 0), (point_type, 5), (set_type, 2)]
     = Inr [(''__main__.Point'', 5), (''list'', 2), (''set'', 2)] \<and>
   sorted_wrt (\<lambda>a b. snd a \<ge> snd b)
     [(''__main__.Point'', 5 :: int), (''list'', 2), (''set'', 2)] \<and>
   filter (\<lambda>item. snd item = 2) [(''__main__.Point'', 5 :: int), (''list'', 2), (''set'', 2)]
     = filter (\<lambda>item. snd item = 2)
         (rendered_items [(list_type, 2), (dict_type, 0), (point_type, 5), (set_type, 2)])"
proof -
  have h: "format_obj_count [(list_type, 2), (dict_type, 0), (point_type, 5), (set_type, 2)]
     = Inr [(''__main__.Point'', 5), (''list'', 2), (''set'', 2)]"
    by (simp add: format_obj_count_def sorted_by_count_reverse_def point_type_def list_type_def
          set_type_def regex_eval py_getitem_def py_index_def)
  from format_obj_count_sorted_stable[OF h] h show ?thesis by blast
qed

text \<open>
  C10: the formatter returns a list exactly when every type of its input with a count
  other than zero has a \<^verbatim>\<open>repr\<close> in which the pattern is found, and it raises
  \<open>IndexError\<close> otherwise. The \<^verbatim>\<open>repr\<close> of \<open>opaque_type\<close> has no match, a census
  with that type makes the formatter raise, and a run after which an object of that type
  is alive ends with the exception and no result.
\<close>

theorem format_obj_count_needs_names:
  "((\<exists>r. format_obj_count c = Inr r) \<longleftrightarrow>
      (\<forall>(t, n)\<in>set c. n \<noteq> 0 \<longrightarrow> re_findall (type_repr t) \<noteq> [])) \<and>
   (format_obj_count c = Inl IndexError \<or> (\<exists>r. format_obj_count c = Inr r)) \<and>
   re_findall (type_repr opaque_type) = [] \<and>
   format_obj_count [(list_type, 2), (opaque_type, 3)] = Inl IndexError \<and>
   fst (run ModuleMode ''a.py'' opaque_input idle_world) = Inl IndexError"
proof -
  have a: "(\<exists>r. format_obj_count c = Inr r) \<longleftrightarrow>
      (\<forall>(t, n)\<in>set c. n \<noteq> 0 \<longrightarrow> re_findall (type_repr t) \<noteq> [])"
    by (simp add: format_obj_count_eq all_named_def)
  have b: "format_obj_count c = Inl IndexError \<or> (\<exists>r. format_obj_count c = Inr r)"
    by (simp add: format_obj_count_eq)
  have o: "re_findall (type_repr opaque_type) = []"
    by (simp add: opaque_type_def re_findall_def match_at_def)
  have "\<not> all_named [(list_type, 2), (opaque_type, 3)]"
    using o by (simp add: all_named_def)
  then have d: "format_obj_count [(list_type, 2), (opaque_type, 3)] = Inl IndexError"
    by (simp add: format_obj_count_eq)
  have c: "result_obj_count opaque_input prof = [(list_type, 0), (opaque_type, 1)]" for prof
    by (simp add: opaque_input_def example_input_def census_eval Let_def)
  have "\<not> all_named [(list_type, 0), (opaque_type, 1)]"
    using o by (simp add: all_named_def)
  then have f: "format_obj_count (result_obj_count opaque_input prof) = Inl IndexError" for prof
    by (simp add: c format_obj_count_eq)
  have "target_loads ModuleMode opaque_input"
    by (simp add: target_loads_def opaque_input_def example_input_def)
  then have "\<not> isl (fst (run_dispatcher ModuleMode opaque_input idle_world))"
    by (simp add: run_dispatcher_value except_SystemExit_def opaque_input_def example_input_def
          example_target_def)
  then obtain prof w' where "run_dispatcher ModuleMode opaque_input idle_world = (Inr prof, w')"
    by (cases "run_dispatcher ModuleMode opaque_input idle_world"; cases "fst (run_dispatcher ModuleMode opaque_input idle_world)") auto
  then have e: "fst (run ModuleMode ''a.py'' opaque_input idle_world) = Inl IndexError"
    by (simp add: run_def f)
  from a b o d e show ?thesis by blast
qed

theorem format_obj_count_needs_names_witness:
  "re_findall (type_repr list_type) = [(''class'', ''list'')] \<and>
   (\<exists>r. format_obj_count [(list_type, 2)] = Inr r)"
proof -
  have m: "re_findall (type_repr list_type) = [(''class'', ''list'')]"
    by (simp add: list_type_def regex_eval)
  then have h: "\<forall>(t, n)\<in>set [(list_type, 2 :: int)]. n \<noteq> 0 \<longrightarrow> re_findall (type_repr t) \<noteq> []"
    by simp
  from format_obj_count_needs_names[of "[(list_type, 2)]"] h m show ?thesis by blast
qed

subsection \<open>The entries of \<^verbatim>\<open>objectsCount\<close>\<close>

lemma result_obj_count_entries:
  assumes "(t, n) \<in> set (result_obj_count inp prof)"
  shows "0 < n \<or> (t = list_type \<and> -1 \<le> n)"
proof -
  let ?r = "counter_sub (get_obj_count_difference (new_objects inp) (existing_objects inp))
              (obj_overhead prof)"
  have p: "positive_counts ?r" by (rule counter_sub_positive)
  from assms have "(t, n) \<in> set (AList.update list_type (counter_get ?r list_type - 1) ?r)"
    by (simp add: result_obj_count_def Let_def)
  then have "(t, n) = (list_type, counter_get ?r list_type - 1) \<or> (t, n) \<in> set ?r"
    by (rule set_update_cases)
  then show ?thesis
  proof
    assume "(t, n) = (list_type, counter_get ?r list_type - 1)"
    moreover have "0 \<le> counter_get ?r list_type" using p by (rule counter_get_nonneg)
    ultimately show ?thesis by simp
  next
    assume "(t, n) \<in> set ?r"
    with p show ?thesis by (auto simp: positive_counts_def)
  qed
qed

lemma run_objects_count:
  assumes "fst (run mode name inp w) = Inr result"
  shows "\<exists>prof. format_obj_count (result_obj_count inp prof) = Inr (objectsCount result)"
  using assms by (auto simp: run_def split: prod.splits sum.splits)

lemma freed_lists_census:
  "result_obj_count freed_lists_input prof = [(point_type, 2), (list_type, -1)]"
  by (simp add: freed_lists_input_def example_input_def census_eval Let_def)

lemma freed_lists_format:
  "format_obj_count [(point_type, 2), (list_type, -1)]
     = Inr [(''__main__.Point'', 2), (''list'', -1)]"
  by (simp add: format_obj_count_def sorted_by_count_reverse_def point_type_def list_type_def
        regex_eval py_getitem_def py_index_def)

lemma freed_lists_run:
  "fst (run ModuleMode ''a.py'' freed_lists_input idle_world) =
     Inr \<lparr>objectName = ''a.py'', codeEvents = example_rows, totalEvents = 3,
          objectsCount = [(''__main__.Point'', 2), (''list'', -1)]\<rparr>"
proof -
  have d: "run_dispatcher ModuleMode freed_lists_input idle_world
     = (Inr module_tracker,
        \<lparr>trace_function = None, settrace_calls = [Some (TrackerTrace 7), None]\<rparr>)"
    unfolding freed_lists_input_def by (rule module_run_tracker)
  have l: "length example_rows = 3" by (simp add: example_rows_def)
  show ?thesis
    by (simp add: run_def d freed_lists_census freed_lists_format module_tracker_events
          module_tracker_events2 l)
qed

text \<open>
  C2, as the claim states it, fails: after a run in which the program drops two lists
  that were alive before, no list is left in the census after the two subtractions, the
  correction by one list makes the count of lists \<open>-1\<close>, and the formatter, which drops
  the counts equal to zero only, shows it.
\<close>

theorem freed_lists_negative_entry:
  "objectsCount \<lparr>objectName = ''a.py'', codeEvents = example_rows, totalEvents = 3,
          objectsCount = [(''__main__.Point'', 2), (''list'', -1)]\<rparr> ! 1 = (''list'', -1) \<and>
   fst (run ModuleMode ''a.py'' freed_lists_input idle_world) =
     Inr \<lparr>objectName = ''a.py'', codeEvents = example_rows, totalEvents = 3,
          objectsCount = [(''__main__.Point'', 2), (''list'', -1)]\<rparr>"
  by (simp add: freed_lists_run)

text \<open>
  C2, amended: no entry of \<^verbatim>\<open>objectsCount\<close> has the count zero, and an entry with a
  count below zero is the entry of the type \<^verbatim>\<open>list\<close> with the count \<open>-1\<close>; every other
  entry has a count above zero.
\<close>

theorem objects_count_entries:
  assumes "fst (run mode name inp w) = Inr result"
  shows "\<forall>(nm, n)\<in>set (objectsCount result).
           n \<noteq> 0 \<and> (n < 0 \<longrightarrow> n = -1 \<and> nm = ''list'')"
proof -
  from assms obtain prof where
    f: "format_obj_count (result_obj_count inp prof) = Inr (objectsCount result)"
    using run_objects_count by blast
  let ?c = "result_obj_count inp prof"
  from f have "objectsCount result = sorted_by_count_reverse (rendered_items ?c)"
    by (simp add: format_obj_count_eq split: if_splits)
  then have s: "set (objectsCount result) = set (rendered_items ?c)"
    by (simp add: sorted_by_count_reverse_def)
  show ?thesis
  proof (intro ballI, clarify)
    fix nm n assume "(nm, n) \<in> set (objectsCount result)"
    with s obtain t where t: "(t, n) \<in> set ?c" and n0: "n \<noteq> 0" and nm: "nm = type_name t"
      by (auto simp: rendered_items_def)
    from t have "0 < n \<or> (t = list_type \<and> -1 \<le> n)" by (rule result_obj_count_entries)
    then show "n \<noteq> 0 \<and> (n < 0 \<longrightarrow> n = -1 \<and> nm = ''list'')"
      using n0 nm by (auto simp: type_name_list)
  qed
qed

theorem objects_count_entries_witness:
  "fst (run ModuleMode ''a.py'' freed_lists_input idle_world) =
     Inr \<lparr>objectName = ''a.py'', codeEvents = example_rows, totalEvents = 3,
          objectsCount = [(''__main__.Point'', 2), (''list'', -1)]\<rparr> \<and>
   (\<exists>nm n. (nm, n) \<in> set [(''__main__.Point'', 2 :: int), (''list'', -1)] \<and> n < 0 \<and>
            n = -1 \<and> nm = ''list'')"
proof -
  let ?res = "\<lparr>objectName = ''a.py'', codeEvents = example_rows, totalEvents = 3,
          objectsCount = [(''__main__.Point'', 2), (''list'', -1)]\<rparr>"
  have h: "fst (run ModuleMode ''a.py'' freed_lists_input idle_world) = Inr ?res"
    by (rule freed_lists_run)
  from objects_count_entries[OF h] have "(-1::int) < 0 \<longrightarrow> (-1::int) = -1 \<and> ''list'' = ''list''"
    by simp
  with h show ?thesis by auto
qed

subsection \<open>The two subtractions\<close>

text \<open>
  C3, as the claim states it, fails: with one list after and three lists before, the
  difference of the counts is \<open>-2\<close>, and the census of the difference has no entry for
  lists at all.
\<close>

theorem fewer_lists_no_entry:
  "get_obj_count_difference [obj 1 list_type]
       [obj 1 list_type, obj 2 list_type, obj 3 list_type] = [] \<and>
   counter_get (get_object_count_by_type (process_in_memory_objects [obj 1 list_type])) list_type
     - counter_get (get_object_count_by_type (process_in_memory_objects
          [obj 1 list_type, obj 2 list_type, obj 3 list_type])) list_type = - 2 \<and>
   counter_get (get_obj_count_difference [obj 1 list_type]
       [obj 1 list_type, obj 2 list_type, obj 3 list_type]) list_type = 0"
  by (simp add: census_eval Let_def)

text \<open>
  C3, amended: the difference of two censuses gives each type the count after less the
  count before where that is above zero, and no entry otherwise, so that the type reads
  as zero; taking the tracker's overhead from the difference works in the same way. All
  entries of both censuses are above zero: counts of zero or less are dropped at each of
  the two subtractions.
\<close>

theorem obj_count_difference_saturating:
  "(\<forall>t. counter_get (get_obj_count_difference objs1 objs2) t
          = max 0 (counter_get (get_object_count_by_type (process_in_memory_objects objs1)) t
                   - counter_get (get_object_count_by_type (process_in_memory_objects objs2)) t)) \<and>
   (\<forall>(t, n)\<in>set (get_obj_count_difference objs1 objs2). 0 < n) \<and>
   (\<forall>t. counter_get (counter_sub (get_obj_count_difference objs1 objs2) (obj_overhead prof)) t
          = max 0 (counter_get (get_obj_count_difference objs1 objs2) t
                   - counter_get (obj_overhead prof) t)) \<and>
   (\<forall>(t, n)\<in>set (counter_sub (get_obj_count_difference objs1 objs2) (obj_overhead prof)).
       0 < n)"
proof -
  let ?c1 = "get_object_count_by_type (process_in_memory_objects objs1)"
  let ?c2 = "get_object_count_by_type (process_in_memory_objects objs2)"
  have d: "get_obj_count_difference objs1 objs2 = counter_sub ?c1 ?c2"
    by (simp add: get_obj_count_difference_def Let_def)
  have "distinct (map fst ?c1)" and "positive_counts ?c2"
    by (simp_all add: get_object_count_by_type_def counter_of_distinct counter_of_positive)
  then have a: "\<forall>t. counter_get (get_obj_count_difference objs1 objs2) t
          = max 0 (counter_get ?c1 t - counter_get ?c2 t)"
    unfolding d by (simp add: counter_sub_get)
  have b: "\<forall>(t, n)\<in>set (get_obj_count_difference objs1 objs2). 0 < n"
    using counter_sub_positive[of ?c1 ?c2] unfolding d by (simp add: positive_counts_def)
  have "distinct (map fst (get_obj_count_difference objs1 objs2))"
    unfolding d by (rule counter_sub_distinct)
  then have c: "\<forall>t. counter_get (counter_sub (get_obj_count_difference objs1 objs2) (obj_overhead prof)) t
          = max 0 (counter_get (get_obj_count_difference objs1 objs2) t
                   - counter_get (obj_overhead prof) t)"
    by (simp add: counter_sub_get obj_overhead_positive)
  have e: "\<forall>(t, n)\<in>set (counter_sub (get_obj_count_difference objs1 objs2) (obj_overhead prof)).
       0 < n"
    using counter_sub_positive[of "get_obj_count_difference objs1 objs2" "obj_overhead prof"]
    by (simp add: positive_counts_def)
  from a b c e show ?thesis by blast
qed

theorem obj_count_difference_saturating_witness:
  "get_obj_count_difference (new_objects example_input) (existing_objects example_input)
     = [(dict_type, 2), (list_type, 2), (tracker_type, 1), (deque_type, 1), (set_type, 1),
        (point_type, 2)] \<and>
   counter_get (get_obj_count_difference (new_objects example_input)
                  (existing_objects example_input)) point_type
     = max 0 (counter_get (get_object_count_by_type
                 (process_in_memory_objects (new_objects example_input))) point_type
              - counter_get (get_object_count_by_type
                 (process_in_memory_objects (existing_objects example_input))) point_type) \<and>
   counter_sub (get_obj_count_difference (new_objects example_input)
                  (existing_objects example_input)) (obj_overhead module_tracker)
     = [(list_type, 1), (point_type, 2)]"
proof -
  have a: "get_obj_count_difference (new_objects example_input) (existing_objects example_input)
     = [(dict_type, 2), (list_type, 2), (tracker_type, 1), (deque_type, 1), (set_type, 1),
        (point_type, 2)]"
    by (simp add: example_input_def census_eval Let_def)
  have b: "counter_sub (get_obj_count_difference (new_objects example_input)
                  (existing_objects example_input)) (obj_overhead module_tracker)
     = [(list_type, 1), (point_type, 2)]"
    by (simp add: example_input_def census_eval Let_def)
  from obj_count_difference_saturating[of "new_objects example_input"
         "existing_objects example_input" module_tracker] a b
  show ?thesis by blast
qed

section \<open>Properties of the tracer scope\<close>

subsection \<open>The example runs\<close>

lemma function_run_tracker:
  "run_dispatcher FunctionMode (example_input\<lparr>target := example_target\<lparr>outcome := out\<rparr>\<rparr>) w
     = (case out of
          None \<Rightarrow> Inr (function_tracker\<lparr>original_trace_function := trace_function w\<rparr>)
        | Some e \<Rightarrow> Inl e,
        w\<lparr>settrace_calls := settrace_calls w @ [Some (TrackerTrace 7), trace_function w]\<rparr>)"
  by (cases out) (simp_all add: run_eval example_input_def function_tracker_def Let_def)

lemma module_run_exit:
  "run_dispatcher ModuleMode exiting_input idle_world
     = (Inr module_tracker,
        \<lparr>trace_function = None, settrace_calls = [Some (TrackerTrace 7), None]\<rparr>)"
  by (simp add: run_eval exiting_input_def example_input_def module_tracker_def Let_def
        insert_commute)

lemma example_census: "result_obj_count exiting_input prof = [(list_type, 0), (point_type, 2)]"
  by (simp add: exiting_input_def example_input_def census_eval Let_def)

lemma example_format:
  "format_obj_count [(list_type, 0), (point_type, 2)] = Inr [(''__main__.Point'', 2)]"
  by (simp add: format_obj_count_def sorted_by_count_reverse_def point_type_def
        regex_eval py_getitem_def py_index_def)

subsection \<open>Exceptions of the target\<close>

text \<open>
  C5: in each of the four run modes, whatever the target does, the trace function in
  place after the run is the one in place before it; and when the target was found and
  compiled and raises an exception other than \<open>SystemExit\<close>, the run raises that
  exception.
\<close>

theorem hook_restored_error_reraised:
  "trace_function (snd (run_dispatcher mode inp w)) = trace_function w \<and>
   (target_loads mode inp \<and> outcome (target inp) = Some e \<and> e \<noteq> SystemExit
      \<longrightarrow> fst (run_dispatcher mode inp w) = Inl e)"
proof -
  have "fst (run_dispatcher mode inp w) = Inl e"
    if l: "target_loads mode inp" and o: "outcome (target inp) = Some e" and e: "e \<noteq> SystemExit"
  proof (cases mode)
    case ModuleMode
    then show ?thesis using l o e
      by (simp add: run_dispatcher_def target_loads_def module_raises except_SystemExit_def)
  next
    case FunctionMode
    then show ?thesis using l o e
      by (simp add: run_dispatcher_def target_loads_def function_raises)
  next
    case PackagePathMode
    with l obtain pkg where "package_code inp = Inr pkg"
      by (cases "package_code inp") (auto simp: target_loads_def)
    then show ?thesis using PackagePathMode o e
      by (simp add: run_dispatcher_def run_as_package_path_def package_raises except_SystemExit_def)
  next
    case PackageInNamespaceMode
    with l obtain pkg where "package_code inp = Inr pkg"
      by (cases "package_code inp") (auto simp: target_loads_def)
    then show ?thesis using PackageInNamespaceMode o e
      by (simp add: run_dispatcher_def run_as_package_in_namespace_def package_raises
            except_SystemExit_def)
  qed
  then show ?thesis by (simp add: run_dispatcher_hook)
qed

theorem hook_restored_error_reraised_witness:
  "target_loads ModuleMode raising_input \<and>
   outcome (target raising_input) = Some (TargetError ''ValueError'') \<and>
   fst (run_dispatcher ModuleMode raising_input debugger_world) = Inl (TargetError ''ValueError'') \<and>
   trace_function (snd (run_dispatcher ModuleMode raising_input debugger_world))
     = Some (ForeignTrace 1) \<and>
   settrace_calls (snd (run_dispatcher ModuleMode raising_input debugger_world))
     = [Some (TrackerTrace 7), Some (ForeignTrace 9), Some (ForeignTrace 1)]"
proof -
  have l: "target_loads ModuleMode raising_input"
    by (simp add: target_loads_def raising_input_def example_input_def)
  have o: "outcome (target raising_input) = Some (TargetError ''ValueError'')"
    by (simp add: raising_input_def)
  have s: "settrace_calls (snd (run_dispatcher ModuleMode raising_input debugger_world))
     = [Some (TrackerTrace 7), Some (ForeignTrace 9), Some (ForeignTrace 1)]"
    by (simp add: run_eval raising_input_def example_input_def debugger_world_def Let_def)
  have t: "trace_function debugger_world = Some (ForeignTrace 1)"
    by (simp add: debugger_world_def)
  from hook_restored_error_reraised[where mode = ModuleMode and inp = raising_input
         and w = debugger_world and e = "TargetError ''ValueError''"] l o s t
  show ?thesis by simp
qed

text \<open>
  C4: module mode catches the \<open>SystemExit\<close> of the target and returns what was
  recorded, and so do the two package modes; function mode has no handler, and for the
  same target the run ends with \<open>SystemExit\<close> and no result.
\<close>

theorem function_mode_system_exit:
  "outcome (target exiting_input) = Some SystemExit \<and>
   fst (run FunctionMode ''f'' exiting_input idle_world) = Inl SystemExit \<and>
   fst (run ModuleMode ''a.py'' exiting_input idle_world) =
     Inr \<lparr>objectName = ''a.py'', codeEvents = example_rows, totalEvents = 3,
          objectsCount = [(''__main__.Point'', 2)]\<rparr>"
proof -
  have o: "outcome (target exiting_input) = Some SystemExit"
    by (simp add: exiting_input_def)
  have "run_dispatcher FunctionMode exiting_input idle_world
          = (Inl SystemExit,
             idle_world\<lparr>settrace_calls := settrace_calls idle_world
                                             @ [Some (TrackerTrace 7), trace_function idle_world]\<rparr>)"
    unfolding exiting_input_def by (simp add: function_run_tracker)
  then have f: "fst (run FunctionMode ''f'' exiting_input idle_world) = Inl SystemExit"
    by (simp add: run_def)
  have l: "length example_rows = 3" by (simp add: example_rows_def)
  have m: "fst (run ModuleMode ''a.py'' exiting_input idle_world) =
     Inr \<lparr>objectName = ''a.py'', codeEvents = example_rows, totalEvents = 3,
          objectsCount = [(''__main__.Point'', 2)]\<rparr>"
    by (simp add: run_def module_run_exit example_census example_format module_tracker_events
          module_tracker_events2 l)
  from o f m show ?thesis by simp
qed

subsection \<open>A scope inside a scope\<close>




subsection \<open>Targets that cannot be loaded\<close>

text \<open>
  C8, as the claim states it, fails: in module mode the file is compiled inside the
  \<^verbatim>\<open>with\<close> block, so when it does not compile, \<^verbatim>\<open>sys.settrace\<close> has been called
  with the tracker's trace function before the error is raised (and once more, to
  restore, on the way out).
\<close>

theorem compile_failure_after_hook:
  "source_compile bad_source_input = Inl SyntaxError \<and>
   run_as_module bad_source_input idle_world
     = (Inl SyntaxError,
        \<lparr>trace_function = None, settrace_calls = [Some (TrackerTrace 7), None]\<rparr>)"
  by (simp add: run_eval bad_source_input_def example_input_def)

text \<open>
  C8, amended: a file that cannot be opened (module mode) and a package whose code
  cannot be collected (package modes) make the run fail before a tracker exists, with no
  call of \<^verbatim>\<open>sys.settrace\<close>. A file that does not compile (module mode) and an object
  without \<^verbatim>\<open>__code__\<close> (function mode) make the run fail inside the tracker's scope:
  the tracker's trace function was installed, and the one found at entry is put back
  before the error reaches the caller.
\<close>

theorem load_failure_paths:
  "(source_open inp = None \<longrightarrow> run_as_module inp w = (Inl IOError, w)) \<and>
   (package_code inp = Inl e \<longrightarrow>
      run_as_package_path inp w = (Inl e, w) \<and>
      run_as_package_in_namespace inp w = (Inl e, w)) \<and>
   (source_open inp \<noteq> None \<and> source_compile inp = Inl e \<and> e \<noteq> SystemExit \<longrightarrow>
      run_as_module inp w =
        (Inl e, w\<lparr>settrace_calls := settrace_calls w
                      @ [Some (TrackerTrace (new_tracker_id inp)), trace_function w]\<rparr>)) \<and>
   (function_code inp = Inl e \<longrightarrow>
      run_as_function inp w =
        (Inl e, w\<lparr>settrace_calls := settrace_calls w
                      @ [Some (TrackerTrace (new_tracker_id inp)), trace_function w]\<rparr>))"
proof -
  have a: "source_open inp = None \<longrightarrow> run_as_module inp w = (Inl IOError, w)"
    by (simp add: run_as_module_def)
  have b: "package_code inp = Inl e \<longrightarrow>
      run_as_package_path inp w = (Inl e, w) \<and>
      run_as_package_in_namespace inp w = (Inl e, w)"
    by (simp add: run_as_package_path_def run_as_package_in_namespace_def run_as_package_def)
  have c: "source_open inp \<noteq> None \<and> source_compile inp = Inl e \<and> e \<noteq> SystemExit \<longrightarrow>
      run_as_module inp w =
        (Inl e, w\<lparr>settrace_calls := settrace_calls w
                      @ [Some (TrackerTrace (new_tracker_id inp)), trace_function w]\<rparr>)"
    by (auto simp: run_as_module_def module_body_def with_tracker_def returning_def
          except_SystemExit_def tracker_init_def tracker_enter_def tracker_exit_def
          sys_settrace_def)
  have d: "function_code inp = Inl e \<longrightarrow>
      run_as_function inp w =
        (Inl e, w\<lparr>settrace_calls := settrace_calls w
                      @ [Some (TrackerTrace (new_tracker_id inp)), trace_function w]\<rparr>)"
    by (auto simp: run_as_function_def function_body_def with_tracker_def returning_def
          tracker_init_def tracker_enter_def tracker_exit_def sys_settrace_def)
  from a b c d show ?thesis by blast
qed

theorem load_failure_paths_witness:
  "run_as_module unreadable_input debugger_world = (Inl IOError, debugger_world) \<and>
   run_as_package_path missing_package_input debugger_world = (Inl ImportError, debugger_world) \<and>
   run_as_package_in_namespace missing_package_input debugger_world
     = (Inl ImportError, debugger_world) \<and>
   run_as_module bad_source_input debugger_world
     = (Inl SyntaxError,
        \<lparr>trace_function = Some (ForeignTrace 1),
         settrace_calls = [Some (TrackerTrace 7), Some (ForeignTrace 1)]\<rparr>) \<and>
   run_as_function no_code_input debugger_world
     = (Inl AttributeError,
        \<lparr>trace_function = Some (ForeignTrace 1),
         settrace_calls = [Some (TrackerTrace 7), Some (ForeignTrace 1)]\<rparr>)"
proof -
  have a: "source_open unreadable_input = None" by (simp add: unreadable_input_def)
  have b: "package_code missing_package_input = Inl ImportError"
    by (simp add: missing_package_input_def)
  have c: "source_open bad_source_input \<noteq> None \<and>
           source_compile bad_source_input = Inl SyntaxError \<and> SyntaxError \<noteq> SystemExit"
    by (simp add: bad_source_input_def example_input_def)
  have d: "function_code no_code_input = Inl AttributeError" by (simp add: no_code_input_def)
  have i: "new_tracker_id bad_source_input = 7" "new_tracker_id no_code_input = 7"
    by (simp_all add: bad_source_input_def no_code_input_def example_input_def)
  from load_failure_paths[where inp = unreadable_input and w = debugger_world and e = IOError]
    load_failure_paths[where inp = missing_package_input and w = debugger_world
      and e = ImportError]
    load_failure_paths[where inp = bad_source_input and w = debugger_world and e = SyntaxError]
    load_failure_paths[where inp = no_code_input and w = debugger_world
      and e = AttributeError]
    a b c d i
  show ?thesis by (simp add: debugger_world_def)
qed

end
